theory Spec2Isabelle
  imports Main "HOL-Library.Sublist"
begin

section \<open>The chunk planner: \<open>autochunk\<close> (second part of src/src/index.ts)\<close>

text \<open>
  The items of \<open>autochunk\<close> have type \<open>T extends Record<string, unknown> | string | number\<close>.
  An object is carried as the list of its own enumerable properties, one pair per key, in
  key order; \<open>'v\<close> is the type of the property values, which the planner never inspects.
  Numbers are carried as integers: the planner never inspects them either.
\<close>

datatype 'v item = Str string | Num int | Obj "(string \<times> 'v) list"

fun isPlainObject :: "'v item \<Rightarrow> bool" where
  "isPlainObject (Obj kvs) = True"
| "isPlainObject (Str s) = False"
| "isPlainObject (Num n) = False"

fun keys :: "'v item \<Rightarrow> string list" where
  "keys (Obj kvs) = map fst kvs"
| "keys (Str s) = []"
| "keys (Num n) = []"

definition D1_MAX_PARAMETERS :: nat where
  "D1_MAX_PARAMETERS = 100"

text \<open>
  The three ways in which the promise returned by \<open>autochunk\<close> rejects:
  \<^item> \<open>PrecheckFailed\<close> is \<open>new Error("otherParametersCount cannot be more than 100")\<close>;
  \<^item> \<open>ItemTooLarge n\<close> is \<open>new Error("Item has too many parameters (n)")\<close>;
  \<^item> \<open>WriteFailed e\<close> is the rejection \<open>e\<close> of an awaited database operation (in \<open>autochunk\<close>
    the callback, \<open>await cb(chunk)\<close>), which the function does not catch.
\<close>

datatype 'e failure = PrecheckFailed | ItemTooLarge nat | WriteFailed 'e

definition itemParameters :: "'v item \<Rightarrow> nat" where
  "itemParameters item = (if isPlainObject item then length (keys item) else 1)"

text \<open>
  The first loop, \<open>for (const item of items)\<close>, with the statement that follows it
  (\<open>if (chunk.length) chunks.push(chunk)\<close>) at its exit. Its state is the three variables
  \<open>chunks\<close>, \<open>chunk\<close> and \<open>chunkParameters\<close>. The \<open>throw\<close> inside it is the \<open>Inl\<close> result,
  which carries the \<open>itemParameters\<close> that the message of the error shows.
  \<open>otherParametersCount\<close> is a JavaScript number, so it is an integer here and may be
  negative.
\<close>

fun autochunk_plan ::
  "'v item list \<Rightarrow> int \<Rightarrow> 'v item list list \<Rightarrow> 'v item list \<Rightarrow> nat
    \<Rightarrow> nat + 'v item list list" where
  "autochunk_plan [] otherParametersCount chunks chunk chunkParameters =
     Inr (if length chunk \<noteq> 0 then chunks @ [chunk] else chunks)"
| "autochunk_plan (item # items) otherParametersCount chunks chunk chunkParameters =
     (if itemParameters item > D1_MAX_PARAMETERS
      then Inl (itemParameters item)
      else if int chunkParameters + int (itemParameters item) + otherParametersCount
                > int D1_MAX_PARAMETERS
      then autochunk_plan items otherParametersCount (chunks @ [chunk]) [item]
             (itemParameters item)
      else autochunk_plan items otherParametersCount chunks (chunk @ [item])
             (chunkParameters + itemParameters item))"

text \<open>
  The callback \<open>cb\<close> is asynchronous and has effects (it writes to the database), so it
  takes the state of its world and returns the new one, together with either the
  rejection or the results. The second loop, \<open>for (const chunk of chunks)\<close>, awaits the
  callback on one chunk after the other and stops at the first rejection.
\<close>

type_synonym ('a, 'u, 'e, 's) callback = "'a list \<Rightarrow> 's \<Rightarrow> ('e + 'u list) \<times> 's"

fun autochunk_run ::
  "'a list list \<Rightarrow> ('a, 'u, 'e, 's) callback \<Rightarrow> 'u list list \<Rightarrow> 's
    \<Rightarrow> ('e failure + 'u list list) \<times> 's" where
  "autochunk_run [] cb results s = (Inr results, s)"
| "autochunk_run (chunk # chunks) cb results s =
     (case cb chunk s of
        (Inl e, s') \<Rightarrow> (Inl (WriteFailed e), s')
      | (Inr result, s') \<Rightarrow> autochunk_run chunks cb (results @ [result]) s')"

definition autochunk ::
  "'v item list \<Rightarrow> ('v item, 'u, 'e, 's) callback \<Rightarrow> int \<Rightarrow> 's
    \<Rightarrow> ('e failure + 'u list) \<times> 's" where
  "autochunk items cb otherParametersCount s =
     (if otherParametersCount > int D1_MAX_PARAMETERS then (Inl PrecheckFailed, s)
      else case autochunk_plan items otherParametersCount [] [] 0 of
        Inl tooMany \<Rightarrow> (Inl (ItemTooLarge tooMany), s)
      | Inr chunks \<Rightarrow>
          (case autochunk_run chunks cb [] s of
             (Inl e, s') \<Rightarrow> (Inl e, s')
           | (Inr results, s') \<Rightarrow> (Inr (concat results), s')))"

text \<open>
  To observe which batches the callback receives, a callback is wrapped so that it
  appends its argument to a log kept beside its own state. The wrapper changes nothing
  else (lemma \<open>autochunk_logged\<close> below).
\<close>

definition logged :: "('a, 'u, 'e, 's) callback \<Rightarrow> ('a, 'u, 'e, 's \<times> 'a list list) callback" where
  "logged cb = (\<lambda>chunk (s, log). case cb chunk s of (r, s') \<Rightarrow> (r, (s', log @ [chunk])))"

text \<open>The batches passed to the callback, in the order of the calls.\<close>

definition calls :: "'v item list \<Rightarrow> ('v item, 'u, 'e, 's) callback \<Rightarrow> int \<Rightarrow> 's \<Rightarrow> 'v item list list" where
  "calls items cb otherParametersCount s =
     snd (snd (autochunk items (logged cb) otherParametersCount (s, [])))"

text \<open>The parameter cost of a batch: the costs of its items plus the reserved count.\<close>

definition batchParameters :: "'v item list \<Rightarrow> int \<Rightarrow> int" where
  "batchParameters batch otherParametersCount =
     int (sum_list (map itemParameters batch)) + otherParametersCount"

section \<open>The identity resolver: \<open>extractUsername\<close>\<close>

text \<open>
  \<open>extractUsername\<close> is the same function in src/src/index.ts and in src/unnamed/part_002
  (the latter writes the last three statements as one conditional expression). It tests
  \<open>input.startsWith('@')\<close> and otherwise matches the regular expression
  \<^verbatim>\<open>/^https?:\/\/(www\.)?youtube\.com\/(channel\/UC[\w-]{21}[AQgw]|(c\/|user\/)?[\w@-]+)$/\<close>
  and returns capture group 2.

  The regular expressions needed are: the anchors, a literal string, one character of a
  class, a class repeated exactly \<open>n\<close> times, a class repeated once or more (greedy), an
  optional part (greedy), alternation (left first), sequence, and a capture group with
  its number (groups are numbered by their opening parenthesis).
\<close>

datatype rx = Bol | Eol | Lit string | OneOf string | Rep nat string | Plus string
  | Opt rx | Alt rx rx | Seq rx rx | Grp nat rx

type_synonym captures = "nat \<rightharpoonup> string"

fun first_some :: "('a \<Rightarrow> 'b option) \<Rightarrow> 'a list \<Rightarrow> 'b option" where
  "first_some f [] = None"
| "first_some f (x # xs) = (case f x of Some y \<Rightarrow> Some y | None \<Rightarrow> first_some f xs)"

text \<open>
  A backtracking matcher in continuation-passing style: \<open>rx_match r inp s c k\<close> matches
  \<open>r\<close> at the front of the remaining input \<open>s\<close> (a suffix of the whole input \<open>inp\<close>) with
  the captures \<open>c\<close> made so far, and hands the rest and the captures to \<open>k\<close>; when \<open>k\<close>
  fails the next way of matching \<open>r\<close> is tried, in the order JavaScript tries them.
\<close>

primrec rx_match ::
  "rx \<Rightarrow> string \<Rightarrow> string \<Rightarrow> captures \<Rightarrow> (string \<Rightarrow> captures \<Rightarrow> captures option)
    \<Rightarrow> captures option" where
  "rx_match Bol inp s c k = (if length s = length inp then k s c else None)"
| "rx_match Eol inp s c k = (if s = [] then k s c else None)"
| "rx_match (Lit l) inp s c k =
     (if take (length l) s = l then k (drop (length l) s) c else None)"
| "rx_match (OneOf cs) inp s c k =
     (case s of [] \<Rightarrow> None | x # s' \<Rightarrow> if x \<in> set cs then k s' c else None)"
| "rx_match (Rep n cs) inp s c k =
     (if n \<le> length s \<and> list_all (\<lambda>x. x \<in> set cs) (take n s) then k (drop n s) c else None)"
| "rx_match (Plus cs) inp s c k =
     first_some (\<lambda>n. k (drop n s) c)
       (rev [1 ..< Suc (length (takeWhile (\<lambda>x. x \<in> set cs) s))])"
| "rx_match (Opt r) inp s c k =
     (case rx_match r inp s c k of Some c' \<Rightarrow> Some c' | None \<Rightarrow> k s c)"
| "rx_match (Alt r1 r2) inp s c k =
     (case rx_match r1 inp s c k of Some c' \<Rightarrow> Some c' | None \<Rightarrow> rx_match r2 inp s c k)"
| "rx_match (Seq r1 r2) inp s c k = rx_match r1 inp s c (\<lambda>s' c'. rx_match r2 inp s' c' k)"
| "rx_match (Grp g r) inp s c k =
     rx_match r inp s c (\<lambda>s' c'. k s' (c'(g \<mapsto> take (length s - length s') s)))"

text \<open>
  \<open>input.match(regex)\<close> for a regular expression without the \<open>g\<close> flag: the first start
  position, from the left, at which the expression matches; the result gives the captures
  (\<open>match[n]\<close> is \<open>undefined\<close>, here \<open>None\<close>, for a group that took no part in the match).
\<close>

definition rx_exec :: "rx \<Rightarrow> string \<Rightarrow> captures option" where
  "rx_exec r inp =
     first_some (\<lambda>i. rx_match r inp (drop i inp) Map.empty (\<lambda>s c. Some c))
       [0 ..< Suc (length inp)]"

text \<open>The class \<^verbatim>\<open>\w\<close> (no \<open>u\<close> or \<open>i\<close> flag).\<close>

definition word_chars :: string where
  "word_chars = ''ABCDEFGHIJKLMNOPQRSTUVWXYZabcdefghijklmnopqrstuvwxyz0123456789_''"

definition urlRegex :: rx where
  "urlRegex =
     Seq Bol (Seq (Lit ''http'') (Seq (Opt (Lit ''s'')) (Seq (Lit ''://'')
       (Seq (Opt (Grp 1 (Lit ''www.''))) (Seq (Lit ''youtube.com/'')
       (Seq (Grp 2
               (Alt (Seq (Lit ''channel/UC'')
                      (Seq (Rep 21 (word_chars @ ''-'')) (OneOf ''AQgw'')))
                    (Seq (Opt (Grp 3 (Alt (Lit ''c/'') (Lit ''user/''))))
                      (Plus (word_chars @ ''@-'')))))
          Eol))))))"

definition extractUsername :: "string \<Rightarrow> string option" where
  "extractUsername input =
     (if take 1 input = ''@'' then Some input
      else case rx_exec urlRegex input of
             Some match \<Rightarrow> match 2
           | None \<Rightarrow> None)"

section \<open>The upstream paginator: \<open>getPlaylistVideos\<close>\<close>

text \<open>
  One item of a \<open>PlaylistItemResponse\<close>, with the three values the paginator reads:
  \<open>snippet.title\<close>, \<open>snippet.resourceId.videoId\<close> and \<open>snippet.thumbnails?.high?.url\<close>
  (which may be \<open>undefined\<close>).
\<close>

record playlist_item =
  snippet_title :: string
  snippet_resourceId_videoId :: string
  snippet_thumbnails_high_url :: "string option"

record video =
  videoId :: string
  videoTitle :: string
  thumbnailUrl :: "string option"

text \<open>
  What \<open>await fetch(apiUrl)\<close> followed by \<open>await response.json()\<close> and the reading of
  \<open>data.items\<close> gives: \<open>PageFailed e\<close> when one of them throws \<open>e\<close> (a network error, a body
  that is not JSON, a payload without a well-formed \<open>items\<close> array), and otherwise the
  items of the page and its \<open>nextPageToken\<close>. The platform is outside the program, so the
  fetch is a parameter: it takes the URL and the state of the world.
\<close>

datatype 'e page = PageFailed 'e | Page "playlist_item list" "string option"

type_synonym ('e, 'w) page_fetch = "string \<Rightarrow> 'w \<Rightarrow> 'e page \<times> 'w"

text \<open>A token is truthy when it is defined and not the empty string.\<close>

definition truthy :: "string option \<Rightarrow> bool" where
  "truthy t = (case t of None \<Rightarrow> False | Some s \<Rightarrow> s \<noteq> [])"

definition playlistItemsUrl :: "string \<Rightarrow> string \<Rightarrow> string" where
  "playlistItemsUrl apiKey playlistId =
     ''https://youtube.googleapis.com/youtube/v3/playlistItems?part=snippet&maxResults=50&playlistId=''
       @ playlistId @ ''&key='' @ apiKey"

definition apiUrl :: "string \<Rightarrow> string option \<Rightarrow> string" where
  "apiUrl base nextPageToken =
     (case nextPageToken of
        None \<Rightarrow> base
      | Some t \<Rightarrow> if t \<noteq> [] then base @ ''&pageToken='' @ t else base)"

definition toVideo :: "playlist_item \<Rightarrow> video" where
  "toVideo item =
     \<lparr>video.videoId = snippet_resourceId_videoId item,
      videoTitle = snippet_title item,
      thumbnailUrl = snippet_thumbnails_high_url item\<rparr>"

text \<open>
  The \<open>do ... while (nextPageToken)\<close> loop, which both versions of \<open>getPlaylistVideos\<close> have
  (one pushes the videos of a page one by one, the other all at once). The platform may
  hand out continuation tokens for ever, so the loop is a partial function: \<open>None\<close> is
  a run that never returns.
\<close>

partial_function (option) getPlaylistVideos_loop ::
  "('e, 'w) page_fetch \<Rightarrow> string \<Rightarrow> string option \<Rightarrow> video list \<Rightarrow> 'w
    \<Rightarrow> (('e + video list) \<times> 'w) option" where
  "getPlaylistVideos_loop fetch base nextPageToken videos w =
     (case fetch (apiUrl base nextPageToken) w of
        (PageFailed e, w') \<Rightarrow> Some (Inl e, w')
      | (Page items next, w') \<Rightarrow>
          if truthy next
          then getPlaylistVideos_loop fetch base next (videos @ map toVideo items) w'
          else Some (Inr (videos @ map toVideo items), w'))"

text \<open>
  src/src/index.ts, lines 82 to 116: the loop is inside \<open>try\<close>, and the \<open>catch\<close> block logs
  the error and returns \<open>[]\<close>. The function cannot throw, so its result is a list.
\<close>

definition getPlaylistVideos ::
  "('e, 'w) page_fetch \<Rightarrow> string \<Rightarrow> string \<Rightarrow> 'w \<Rightarrow> (video list \<times> 'w) option" where
  "getPlaylistVideos fetch apiKey playlistId w =
     (case getPlaylistVideos_loop fetch (playlistItemsUrl apiKey playlistId) None [] w of
        None \<Rightarrow> None
      | Some (Inr videos, w') \<Rightarrow> Some (videos, w')
      | Some (Inl error, w') \<Rightarrow> Some ([], w'))"

text \<open>
  src/unnamed/part_002, lines 71 to 91: the same loop without \<open>try\<close>; what the fetch
  throws is thrown by the function.
\<close>

definition getPlaylistVideos_db ::
  "('e, 'w) page_fetch \<Rightarrow> string \<Rightarrow> string \<Rightarrow> 'w \<Rightarrow> (('e + video list) \<times> 'w) option" where
  "getPlaylistVideos_db fetch apiKey playlistId w =
     getPlaylistVideos_loop fetch (playlistItemsUrl apiKey playlistId) None [] w"

text \<open>
  To speak of a failure at any page: \<open>pages_served fetch base tok w n\<close> is defined when the
  next \<open>n\<close> page requests, starting with the token \<open>tok\<close> in the world \<open>w\<close>, all succeed and
  all supply a continuation token; it gives the token and the world after them and the
  videos of these pages.
\<close>

fun pages_served ::
  "('e, 'w) page_fetch \<Rightarrow> string \<Rightarrow> string option \<Rightarrow> 'w \<Rightarrow> nat
    \<Rightarrow> (string option \<times> 'w \<times> video list) option" where
  "pages_served fetch base tok w 0 = Some (tok, w, [])"
| "pages_served fetch base tok w (Suc n) =
     (case fetch (apiUrl base tok) w of
        (PageFailed e, w') \<Rightarrow> None
      | (Page items next, w') \<Rightarrow>
          if truthy next
          then (case pages_served fetch base next w' n of
                  None \<Rightarrow> None
                | Some (tok', w'', vs) \<Rightarrow> Some (tok', w'', map toVideo items @ vs))
          else None)"

section \<open>The statistics fetch and the response of the aggregation (src/unnamed/part_002)\<close>

text \<open>One item of a \<open>VideoStatisticsResponse\<close>, and the row made of it.\<close>

record statistics_item =
  item_id :: string
  statistics_viewCount :: string
  statistics_likeCount :: string
  statistics_commentCount :: string

record stat =
  videoId :: string
  viewCount :: string
  likeCount :: string
  commentCount :: string

text \<open>
  What the \<open>try\<close> block of \<open>getVideoStatistics\<close> obtains: \<open>StatsFailed\<close> when the fetch, the
  parsing or the reading of an item throws, and otherwise \<open>data.items\<close>, which may be
  absent. The groups are fetched concurrently, so the responses cannot be threaded
  through a state in call order: the platform's answer is a function of the URL.
\<close>

datatype stats_response = StatsFailed | Stats "statistics_item list option"

fun join :: "string \<Rightarrow> string list \<Rightarrow> string" where
  "join sep [] = []"
| "join sep [x] = x"
| "join sep (x # y # ys) = x @ sep @ join sep (y # ys)"

definition videosUrl :: "string \<Rightarrow> string list \<Rightarrow> string" where
  "videosUrl apiKey videoIds =
     ''https://youtube.googleapis.com/youtube/v3/videos?part=statistics&id=''
       @ join '','' videoIds @ ''&key='' @ apiKey"

definition toStat :: "statistics_item \<Rightarrow> stat" where
  "toStat item =
     \<lparr>stat.videoId = item_id item,
      viewCount = statistics_viewCount item,
      likeCount = statistics_likeCount item,
      commentCount = statistics_commentCount item\<rparr>"

text \<open>src/unnamed/part_002, lines 93 to 109: \<open>data.items?.map(...) || []\<close>, and \<open>[]\<close> on a throw.\<close>

definition getVideoStatistics_db :: "(string \<Rightarrow> stats_response) \<Rightarrow> string \<Rightarrow> string list \<Rightarrow> stat list" where
  "getVideoStatistics_db fetch apiKey videoIds =
     (case fetch (videosUrl apiKey videoIds) of
        StatsFailed \<Rightarrow> []
      | Stats None \<Rightarrow> []
      | Stats (Some items) \<Rightarrow> map toStat items)"

text \<open>
  src/src/index.ts, lines 119 to 165: the older version returns one row for each requested
  ID, with \<open>'N/A'\<close> counts where the platform gave none.
\<close>

definition notAvailable :: "string \<Rightarrow> stat" where
  "notAvailable i =
     \<lparr>stat.videoId = i, viewCount = ''N/A'', likeCount = ''N/A'', commentCount = ''N/A''\<rparr>"

definition getVideoStatistics :: "(string \<Rightarrow> stats_response) \<Rightarrow> string \<Rightarrow> string list \<Rightarrow> stat list" where
  "getVideoStatistics fetch apiKey videoIds =
     (case fetch (videosUrl apiKey videoIds) of
        StatsFailed \<Rightarrow> map notAvailable videoIds
      | Stats None \<Rightarrow> map notAvailable videoIds
      | Stats (Some items) \<Rightarrow>
          if length items = 0 then map notAvailable videoIds
          else map (\<lambda>i. case find (\<lambda>s. stat.videoId s = i) (map toStat items) of
                           Some st \<Rightarrow> st
                         | None \<Rightarrow> notAvailable i) videoIds)"

text \<open>
  \<open>batchGetVideoStatistics\<close>: the loop \<open>for (let i = 0; i < videoIds.length; i += batchSize)\<close>
  takes \<open>videoIds.slice(i, i + batchSize)\<close>; \<open>Promise.all\<close> keeps the results in the order
  of the groups, and \<open>flat()\<close> concatenates them.
\<close>

definition batchSize :: nat where
  "batchSize = 50"

function batches_from :: "nat \<Rightarrow> 'a list \<Rightarrow> 'a list list" where
  "batches_from i videoIds =
     (if i < length videoIds
      then take batchSize (drop i videoIds) # batches_from (i + batchSize) videoIds
      else [])"
  by pat_completeness auto
termination
  by (relation "measure (\<lambda>(i, videoIds). length videoIds - i)") (auto simp: batchSize_def)

declare batches_from.simps [simp del]

definition batchGetVideoStatistics_db :: "(string \<Rightarrow> stats_response) \<Rightarrow> string \<Rightarrow> string list \<Rightarrow> stat list" where
  "batchGetVideoStatistics_db fetch apiKey videoIds =
     concat (map (getVideoStatistics_db fetch apiKey) (batches_from 0 videoIds))"

text \<open>
  The entries of the response, lines 254 to 266 of src/unnamed/part_002.
  \<open>stat?.viewCount || "N/A"\<close> is \<open>"N/A"\<close> when no row was found and when the count is the
  empty string, which is falsy.
\<close>

record response_video =
  videoID :: string
  channelName :: string
  title :: string
  url :: string
  viewCount :: string
  likeCount :: string
  commentCount :: string
  thumbnailUrl :: "string option"

definition orNA :: "string option \<Rightarrow> string" where
  "orNA x = (case x of None \<Rightarrow> ''N/A'' | Some s \<Rightarrow> if s \<noteq> [] then s else ''N/A'')"

definition videosWithStats :: "string \<Rightarrow> video list \<Rightarrow> stat list \<Rightarrow> response_video list" where
  "videosWithStats username videos stats =
     map (\<lambda>v. let st = find (\<lambda>s. stat.videoId s = video.videoId v) stats in
            \<lparr>videoID = video.videoId v,
             channelName = username,
             title = videoTitle v,
             url = ''https://www.youtube.com/watch?v='' @ video.videoId v,
             response_video.viewCount = orNA (map_option stat.viewCount st),
             response_video.likeCount = orNA (map_option stat.likeCount st),
             response_video.commentCount = orNA (map_option stat.commentCount st),
             response_video.thumbnailUrl = video.thumbnailUrl v\<rparr>) videos"

section \<open>Persisting the videos: \<open>batchInsertVideos\<close> (src/unnamed/part_002)\<close>

text \<open>
  A row of \<open>videosData\<close>, and the same row as the JavaScript object that \<open>autochunk\<close>
  receives: an object literal with five keys (a key whose value is \<open>undefined\<close> is a key).
\<close>

record video_data =
  videoId :: string
  channelId :: int
  title :: string
  url :: string
  thumbnailUrl :: "string option"

datatype field = FStr string | FNum int | FUndefined

definition row_object :: "video_data \<Rightarrow> field item" where
  "row_object v =
     Obj [(''videoId'', FStr (video_data.videoId v)),
          (''channelId'', FNum (channelId v)),
          (''title'', FStr (video_data.title v)),
          (''url'', FStr (video_data.url v)),
          (''thumbnailUrl'', case video_data.thumbnailUrl v of None \<Rightarrow> FUndefined | Some t \<Rightarrow> FStr t)]"

text \<open>
  What is read of a row of the \<open>videos\<close> table, from the \<open>select\<close> and from \<open>returning()\<close>:
  its database identifier and its external video ID.
\<close>

record video_ref =
  row_id :: nat
  videoId :: string

text \<open>
  The database belongs to the hosting environment, so its two operations are parameters:
  \<open>select_videos\<close> is \<open>db.select({id, videoId}).from(videos)\<close> and \<open>insert_videos\<close> is
  \<open>(chunk) => db.insert(videos).values(chunk).returning()\<close>. Both may reject.
  \<open>existingVideoMap\<close> is a \<open>Map\<close>, built from the entries in order (a later entry for a key
  replaces an earlier one).
\<close>

definition new_Map :: "('k \<times> 'v) list \<Rightarrow> ('k \<rightharpoonup> 'v)" where
  "new_Map entries = fold (\<lambda>(k, v) m. m(k \<mapsto> v)) entries Map.empty"

definition has :: "('k \<rightharpoonup> 'v) \<Rightarrow> 'k \<Rightarrow> bool" where
  "has m k = (m k \<noteq> None)"

definition batchInsertVideos ::
  "video_data list \<Rightarrow> ('db \<Rightarrow> ('e + video_ref list) \<times> 'db)
    \<Rightarrow> (field item, video_ref, 'e, 'db) callback \<Rightarrow> 'db
    \<Rightarrow> ('e failure + (string \<rightharpoonup> nat)) \<times> 'db" where
  "batchInsertVideos videosData select_videos insert_videos db =
     (case select_videos db of
        (Inl e, db1) \<Rightarrow> (Inl (WriteFailed e), db1)
      | (Inr existingVideos, db1) \<Rightarrow>
          (let existingVideoMap = new_Map (map (\<lambda>v. (video_ref.videoId v, row_id v)) existingVideos);
               newVideosData = filter (\<lambda>v. \<not> has existingVideoMap (video_data.videoId v)) videosData
           in case autochunk (map row_object newVideosData) insert_videos 0 db1 of
                (Inl e, db2) \<Rightarrow> (Inl e, db2)
              | (Inr insertedVideos, db2) \<Rightarrow>
                  (Inr (fold (\<lambda>v m. m(video_ref.videoId v \<mapsto> row_id v)) insertedVideos
                          existingVideoMap), db2)))"

text \<open>
  The rows passed to the insert operation, batch by batch: the log of the wrapped insert
  operation (the select keeps no log).
\<close>

definition inserted_batches ::
  "video_data list \<Rightarrow> ('db \<Rightarrow> ('e + video_ref list) \<times> 'db)
    \<Rightarrow> (field item, video_ref, 'e, 'db) callback \<Rightarrow> 'db \<Rightarrow> field item list list" where
  "inserted_batches videosData select_videos insert_videos db =
     snd (snd (batchInsertVideos videosData
       (\<lambda>(d, log). case select_videos d of (r, d') \<Rightarrow> (r, (d', log)))
       (logged insert_videos) (db, [])))"

section \<open>The aggregation: the request handler of src/unnamed/part_002\<close>

text \<open>
  \<open>insertChannel\<close>, lines 123 to 127. The two database operations are parameters:
  \<open>select_channel\<close> is \<open>db.select().from(channels).where(eq(channels.channelName, channelName)).get()\<close>,
  which gives the row or \<open>undefined\<close>, and \<open>insert_channel\<close> is
  \<open>db.insert(channels).values({ channelName }).returning()\<close>, which gives the rows written;
  \<open>[0]\<close> of an empty array is \<open>undefined\<close>. Of a channel row only \<open>id\<close> is read. The
  parameter \<open>channelName\<close> is \<open>name\<close> here.
\<close>

record channel =
  channel_id :: int

definition insertChannel ::
  "string \<Rightarrow> (string \<Rightarrow> 'db \<Rightarrow> ('e + channel option) \<times> 'db)
    \<Rightarrow> (string \<Rightarrow> 'db \<Rightarrow> ('e + channel list) \<times> 'db) \<Rightarrow> 'db
    \<Rightarrow> ('e failure + channel option) \<times> 'db" where
  "insertChannel name select_channel insert_channel db =
     (case select_channel name db of
        (Inl e, db1) \<Rightarrow> (Inl (WriteFailed e), db1)
      | (Inr (Some existingChannel), db1) \<Rightarrow> (Inr (Some existingChannel), db1)
      | (Inr None, db1) \<Rightarrow>
          (case insert_channel name db1 of
             (Inl e, db2) \<Rightarrow> (Inl (WriteFailed e), db2)
           | (Inr [], db2) \<Rightarrow> (Inr None, db2)
           | (Inr (row # rows), db2) \<Rightarrow> (Inr (Some row), db2)))"

text \<open>
  \<open>batchInsertVideoStatistics\<close>, lines 173 to 200. Each row of \<open>statsWithDbIds\<close> is an object
  literal with four keys: \<open>videoIdMap.get(stat.videoId)\<close>, which is \<open>undefined\<close> for an ID
  that is not in the map, and the three counts, where \<open>stat.viewCount || 0\<close> is \<open>0\<close> for the
  empty string. \<open>insert_statistics\<close> is
  \<open>(chunk) => db.insert(videoStatistics).values(chunk).returning()\<close>. The rows written are
  objects, so \<open>insertedStats.flat()\<close> is \<open>insertedStats\<close>.
\<close>

definition orZero :: "string \<Rightarrow> field" where
  "orZero s = (if s \<noteq> [] then FStr s else FNum 0)"

definition stat_object :: "(string \<rightharpoonup> nat) \<Rightarrow> stat \<Rightarrow> field item" where
  "stat_object videoIdMap st =
     Obj [(''videoId'', case videoIdMap (stat.videoId st) of None \<Rightarrow> FUndefined | Some i \<Rightarrow> FNum (int i)),
          (''viewCount'', orZero (stat.viewCount st)),
          (''likeCount'', orZero (stat.likeCount st)),
          (''commentCount'', orZero (stat.commentCount st))]"

definition batchInsertVideoStatistics ::
  "stat list \<Rightarrow> (string \<rightharpoonup> nat) \<Rightarrow> (field item, 'u, 'e, 'db) callback \<Rightarrow> 'db
    \<Rightarrow> ('e failure + 'u list) \<times> 'db" where
  "batchInsertVideoStatistics statsData videoIdMap insert_statistics db =
     autochunk (map (stat_object videoIdMap) statsData) insert_statistics 0 db"

text \<open>
  What the handler returns: a plain text, or the JSON object (which the handler prints with
  \<open>JSON.stringify\<close>). \<open>elapsedTime\<close> is the difference of two readings of the clock and is
  left out. The field \<open>videos\<close> of the object is \<open>videos_json\<close> here.
\<close>

record json_response =
  status :: string
  totalVideos :: nat
  videos_json :: "response_video list"

datatype reply = Text string | Json (the_json: json_response)

text \<open>
  What the handler throws: what one of the three persistence functions throws, or the
  \<open>TypeError\<close> of reading \<open>channel.id\<close> when \<open>insertChannel\<close> returned \<open>undefined\<close>. The request
  then ends without the response of the handler.
\<close>

datatype 'e thrown = Thrown "'e failure" | TypeError

text \<open>
  The handler from line 225 on, that is once the user name is resolved and the videos
  of the playlist are fetched: the check for an empty playlist, the statistics fetch, the
  three persistence steps, each of which is awaited and may throw, and the join of videos
  and statistics into the response.
\<close>

definition aggregation ::
  "(string \<Rightarrow> stats_response) \<Rightarrow> string \<Rightarrow> string \<Rightarrow> video list
    \<Rightarrow> (string \<Rightarrow> 'db \<Rightarrow> ('e + channel option) \<times> 'db)
    \<Rightarrow> (string \<Rightarrow> 'db \<Rightarrow> ('e + channel list) \<times> 'db)
    \<Rightarrow> ('db \<Rightarrow> ('e + video_ref list) \<times> 'db)
    \<Rightarrow> (field item, video_ref, 'e, 'db) callback
    \<Rightarrow> (field item, 'u, 'e, 'db) callback
    \<Rightarrow> 'db \<Rightarrow> ('e thrown + reply) \<times> 'db" where
  "aggregation fetch apiKey username videos select_channel insert_channel select_videos
      insert_videos insert_statistics db =
     (if length videos = 0 then (Inr (Text ''No videos found in the playlist.''), db)
      else
        let videoIds = map video.videoId videos;
            stats = batchGetVideoStatistics_db fetch apiKey videoIds
        in case insertChannel username select_channel insert_channel db of
             (Inl e, db1) \<Rightarrow> (Inl (Thrown e), db1)
           | (Inr None, db1) \<Rightarrow> (Inl TypeError, db1)
           | (Inr (Some channel), db1) \<Rightarrow>
               (let videosInsertData =
                      map (\<lambda>v. \<lparr>video_data.videoId = video.videoId v,
                                 channelId = channel_id channel,
                                 video_data.title = videoTitle v,
                                 video_data.url = ''https://www.youtube.com/watch?v='' @ video.videoId v,
                                 video_data.thumbnailUrl = video.thumbnailUrl v\<rparr>) videos
                in case batchInsertVideos videosInsertData select_videos insert_videos db1 of
                     (Inl e, db2) \<Rightarrow> (Inl (Thrown e), db2)
                   | (Inr videoIdMap, db2) \<Rightarrow>
                       (case batchInsertVideoStatistics stats videoIdMap insert_statistics db2 of
                          (Inl e, db3) \<Rightarrow> (Inl (Thrown e), db3)
                        | (Inr insertedStats, db3) \<Rightarrow>
                            (Inr (Json \<lparr>status = ''200 OK'',
                                        totalVideos = length (videosWithStats username videos stats),
                                        videos_json = videosWithStats username videos stats\<rparr>),
                             db3))))"

text \<open>
  The statistics fetch of the group \<open>g\<close> returned nothing for the video ID \<open>x\<close>: the fetch
  failed, or its payload had no \<open>items\<close>, or none of its items has that ID.
\<close>

definition returned_nothing :: "(string \<Rightarrow> stats_response) \<Rightarrow> string \<Rightarrow> string list \<Rightarrow> string \<Rightarrow> bool" where
  "returned_nothing fetch apiKey g x =
     (case fetch (videosUrl apiKey g) of
        StatsFailed \<Rightarrow> True
      | Stats None \<Rightarrow> True
      | Stats (Some items) \<Rightarrow> list_all (\<lambda>item. item_id item \<noteq> x) items)"

section \<open>Auxiliary notions and sample inputs\<close>

text \<open>
  \<open>autochunk\<close> fails in its planning phase when it throws one of its own two errors; it
  reaches its second loop otherwise.
\<close>

definition planning_failed :: "('e failure + 'u) \<Rightarrow> bool" where
  "planning_failed r =
     (case r of Inl PrecheckFailed \<Rightarrow> True | Inl (ItemTooLarge k) \<Rightarrow> True | _ \<Rightarrow> False)"

text \<open>
  Two callbacks that count their calls: one rejects every batch, the other returns the
  parameter count of each item of its batch. And an object with 101 keys.
\<close>

definition always_rejects :: "('a, 'u, unit, nat) callback" where
  "always_rejects chunk s = (Inl (), Suc s)"

definition returns_costs :: "('v item, nat, unit, nat) callback" where
  "returns_costs chunk s = (Inr (map itemParameters chunk), Suc s)"

definition wide_object :: "field item" where
  "wide_object = Obj (map (\<lambda>i. (replicate i CHR ''k'', FNum (int i))) [1 ..< 102])"

definition sample_items :: "field item list" where
  "sample_items = [Str ''a'', Num 7, Obj [(''k'', FNum 1), (''l'', FUndefined)]]"

text \<open>
  Stubs of the paged fetch, for the playlist \<open>PL\<close> and the key \<open>KEY\<close>; their world is
  the number of requests made. \<open>three_pages\<close> serves pages of 50, 50 and 10 items with
  the tokens \<open>T1\<close> and \<open>T2\<close>; \<open>second_page_fails\<close> serves one page of one item with a
  token and fails on every other request.
\<close>

definition sample_page :: "string \<Rightarrow> nat \<Rightarrow> playlist_item list" where
  "sample_page name n =
     map (\<lambda>i. \<lparr>snippet_title = name, snippet_resourceId_videoId = name @ replicate i CHR ''x'',
                snippet_thumbnails_high_url = None\<rparr>) [0 ..< n]"

definition three_pages :: "(unit, nat) page_fetch" where
  "three_pages u requests =
     (if u = playlistItemsUrl ''KEY'' ''PL'' then Page (sample_page ''a'' 50) (Some ''T1'')
      else if u = playlistItemsUrl ''KEY'' ''PL'' @ ''&pageToken=T1''
        then Page (sample_page ''b'' 50) (Some ''T2'')
      else if u = playlistItemsUrl ''KEY'' ''PL'' @ ''&pageToken=T2''
        then Page (sample_page ''c'' 10) None
      else PageFailed (), Suc requests)"

definition second_page_fails :: "(unit, nat) page_fetch" where
  "second_page_fails u requests =
     (if u = playlistItemsUrl ''KEY'' ''PL'' then Page (sample_page ''a'' 1) (Some ''T1'')
      else PageFailed (), Suc requests)"

text \<open>
  The rows of the input whose external video ID is not among the rows read from the
  store.
\<close>

definition newVideos :: "video_ref list \<Rightarrow> video_data list \<Rightarrow> video_data list" where
  "newVideos existingVideos videosData =
     filter (\<lambda>v. video_data.videoId v \<notin> set (map video_ref.videoId existingVideos)) videosData"

text \<open>
  Stubs of the database, whose state is the number of rows written: a \<open>videos\<close> table
  that is empty, one that holds the video \<open>v\<close>, and an insert operation that accepts
  every batch. \<open>sample_rows n\<close> are \<open>n\<close> rows with the video IDs \<open>v\<close>, \<open>vv\<close>, \<open>vvv\<close>, ...
\<close>

definition select_none :: "nat \<Rightarrow> (unit + video_ref list) \<times> nat" where
  "select_none db = (Inr [], db)"

definition select_one :: "nat \<Rightarrow> (unit + video_ref list) \<times> nat" where
  "select_one db = (Inr [\<lparr>row_id = 1, video_ref.videoId = ''v''\<rparr>], db)"

definition insert_ok :: "(field item, video_ref, unit, nat) callback" where
  "insert_ok chunk db =
     (Inr (map (\<lambda>row. \<lparr>row_id = 2,
                  video_ref.videoId = (case row of Obj ((k, FStr i) # kvs) \<Rightarrow> i | _ \<Rightarrow> [])\<rparr>) chunk),
      db + length chunk)"

definition sample_rows :: "nat \<Rightarrow> video_data list" where
  "sample_rows n =
     map (\<lambda>i. \<lparr>video_data.videoId = replicate (Suc i) CHR ''v'', channelId = 1, title = ''t'',
                url = ''u'', thumbnailUrl = None\<rparr>) [0 ..< n]"

text \<open>
  For the aggregation: \<open>sample_videos n\<close> are \<open>n\<close> videos with the IDs \<open>v\<close>, \<open>vv\<close>, \<open>vvv\<close>, ...,
  each with a thumbnail. \<open>first_group_fails\<close> is a stub of the statistics fetch for the 51
  videos of \<open>sample_videos 51\<close>: the request for the second group (the 51st video alone) is
  answered, every other request fails. The database stubs find no channel, write the
  channel with the identifier 1 and accept every batch of statistics.
\<close>

definition sample_videos :: "nat \<Rightarrow> video list" where
  "sample_videos n =
     map (\<lambda>i. \<lparr>video.videoId = replicate (Suc i) CHR ''v'', videoTitle = ''t'',
                video.thumbnailUrl = Some ''https://i.ytimg.com/hq.jpg''\<rparr>) [0 ..< n]"

definition first_group_fails :: "string \<Rightarrow> stats_response" where
  "first_group_fails u =
     (if u = videosUrl ''KEY'' [replicate 51 CHR ''v'']
      then Stats (Some [\<lparr>item_id = replicate 51 CHR ''v'', statistics_viewCount = ''10'',
                         statistics_likeCount = ''2'', statistics_commentCount = ''0''\<rparr>])
      else StatsFailed)"

definition no_channel :: "string \<Rightarrow> nat \<Rightarrow> (unit + channel option) \<times> nat" where
  "no_channel name db = (Inr None, db)"

definition channel_written :: "string \<Rightarrow> nat \<Rightarrow> (unit + channel list) \<times> nat" where
  "channel_written name db = (Inr [\<lparr>channel_id = 1\<rparr>], Suc db)"

definition statistics_written :: "(field item, nat, unit, nat) callback" where
  "statistics_written chunk db = (Inr (map itemParameters chunk), db + length chunk)"

text \<open>
  The run of the handler on the 51 sample videos with these stubs, and the JSON object
  of its reply.
\<close>

definition sample_reply :: "(unit thrown + reply) \<times> nat" where
  "sample_reply =
     aggregation first_group_fails ''KEY'' ''@u'' (sample_videos 51)
       no_channel channel_written select_none insert_ok statistics_written 0"

definition sample_json :: json_response where
  "sample_json = the_json (projr (fst sample_reply))"

section \<open>Properties of the chunk planner\<close>

lemma autochunk_run_logged:
  "autochunk_run chunks (logged cb) results (s, log) = (r, (s', log'))
    \<Longrightarrow> autochunk_run chunks cb results s = (r, s') \<and> prefix log log' \<and> prefix log' (log @ chunks)
        \<and> ((\<exists>rs. r = Inr rs) \<longrightarrow> log' = log @ chunks)"
proof (induction chunks arbitrary: results s log)
  case Nil
  then show ?case by simp
next
  case (Cons chunk chunks)
  obtain r1 s1 where c: "cb chunk s = (r1, s1)" by (cases "cb chunk s")
  show ?case
  proof (cases r1)
    case (Inl e)
    with c Cons.prems show ?thesis by (auto simp: logged_def)
  next
    case (Inr result)
    with c Cons.prems
    have "autochunk_run chunks (logged cb) (results @ [result]) (s1, log @ [chunk]) = (r, (s', log'))"
      by (simp add: logged_def)
    from Cons.IH [OF this] c Inr show ?thesis
      by (auto dest: append_prefixD)
  qed
qed

lemma autochunk_logged:
  "autochunk items (logged cb) n (s, []) = (r, (s', log')) \<Longrightarrow> autochunk items cb n s = (r, s')"
  by (auto simp: autochunk_def split: if_splits sum.splits prod.splits
      dest!: autochunk_run_logged)

lemma autochunk_plan_concat:
  "autochunk_plan items n chunks chunk cp = Inr chunks'
    \<Longrightarrow> concat chunks' = concat chunks @ chunk @ items"
  by (induction items arbitrary: chunks chunk cp) (auto split: if_splits)

lemma autochunk_plan_too_large:
  "find (\<lambda>i. itemParameters i > D1_MAX_PARAMETERS) items = Some y
    \<Longrightarrow> autochunk_plan items n chunks chunk cp = Inl (itemParameters y)"
  by (induction items arbitrary: chunks chunk cp) (auto split: if_splits)

lemma autochunk_run_related:
  assumes cb: "\<And>chunk s rs s'. cb chunk s = (Inr rs, s') \<Longrightarrow> list_all2 R chunk rs"
  shows "autochunk_run chunks cb results s = (Inr rss, s') \<Longrightarrow> list_all2 R pre (concat results)
    \<Longrightarrow> list_all2 R (pre @ concat chunks) (concat rss)"
proof (induction chunks arbitrary: results s pre)
  case Nil
  then show ?case by simp
next
  case (Cons chunk chunks)
  from Cons.prems(1) obtain result s1 where c: "cb chunk s = (Inr result, s1)"
    and r: "autochunk_run chunks cb (results @ [result]) s1 = (Inr rss, s')"
    by (auto split: prod.splits sum.splits)
  from cb [OF c] Cons.prems(2) have "list_all2 R (pre @ chunk) (concat (results @ [result]))"
    by (simp add: list_all2_appendI)
  from Cons.IH [OF r this] show ?case by simp
qed

lemma autochunk_Inr:
  "autochunk items cb n s = (Inr rs, s')
    \<Longrightarrow> \<exists>chunks rss. autochunk_plan items n [] [] 0 = Inr chunks
          \<and> autochunk_run chunks cb [] s = (Inr rss, s') \<and> rs = concat rss"
  by (auto simp: autochunk_def split: if_splits sum.splits prod.splits)

lemma autochunk_run_log:
  "fst (autochunk_run chunks (logged cb) results (s, log)) = fst (autochunk_run chunks cb results s)
   \<and> prefix (snd (snd (autochunk_run chunks (logged cb) results (s, log)))) (log @ chunks)
   \<and> ((\<exists>rs. fst (autochunk_run chunks cb results s) = Inr rs)
        \<longrightarrow> snd (snd (autochunk_run chunks (logged cb) results (s, log))) = log @ chunks)"
proof -
  obtain r s' log' where e: "autochunk_run chunks (logged cb) results (s, log) = (r, (s', log'))"
    by (metis surj_pair)
  from autochunk_run_logged [OF e] e show ?thesis by auto
qed

lemma calls_planned:
  assumes "\<not> n > int D1_MAX_PARAMETERS" and "autochunk_plan items n [] [] 0 = Inr chunks"
  shows "prefix (calls items cb n s) chunks
    \<and> ((\<exists>rs. fst (autochunk items cb n s) = Inr rs) \<longrightarrow> calls items cb n s = chunks)"
proof -
  have "calls items cb n s = snd (snd (autochunk_run chunks (logged cb) [] (s, [])))"
    using assms by (simp add: calls_def autochunk_def split: prod.splits sum.splits)
  moreover have "(\<exists>rs. fst (autochunk items cb n s) = Inr rs)
    \<longleftrightarrow> (\<exists>rs. fst (autochunk_run chunks cb [] s) = Inr rs)"
    using assms by (auto simp: autochunk_def split: prod.splits sum.splits)
  ultimately show ?thesis
    using autochunk_run_log [of chunks cb "[]" s "[]"] by simp
qed

lemma autochunk_run_Inl:
  "autochunk_run chunks cb results s = (Inl e, s') \<Longrightarrow> \<exists>e'. e = WriteFailed e'"
  by (induction chunks arbitrary: results s) (auto split: prod.splits sum.splits)

lemma reaches_execution:
  "\<not> planning_failed (fst (autochunk items cb n s))
    \<Longrightarrow> \<not> n > int D1_MAX_PARAMETERS \<and> (\<exists>chunks. autochunk_plan items n [] [] 0 = Inr chunks)"
  by (cases "autochunk_plan items n [] [] 0")
    (auto simp: planning_failed_def autochunk_def split: if_splits)

text \<open>
  C4. When the reserved-parameter count is greater than the ceiling of 100, \<open>autochunk\<close>
  rejects with the precheck error whatever the items are (none is looked at), the callback
  receives no batch and its world is left as it was.
\<close>

theorem autochunk_precheck:
  assumes "otherParametersCount > 100"
  shows "autochunk items cb otherParametersCount s = (Inl PrecheckFailed, s)
       \<and> calls items cb otherParametersCount s = []"
  using assms by (simp add: autochunk_def calls_def D1_MAX_PARAMETERS_def)

theorem autochunk_precheck_witness:
  "(101::int) > 100
   \<and> autochunk sample_items returns_costs 101 0 = (Inl PrecheckFailed, 0)
   \<and> calls sample_items returns_costs 101 0 = []"
  using autochunk_precheck [of 101 sample_items returns_costs 0]
  by simp

text \<open>
  C2. Suppose the callback, whenever it succeeds, returns one result for each item of its
  batch, in the order of the batch: result and item are related by \<open>R\<close>, position by
  position. Then, whenever \<open>autochunk\<close> succeeds, the flattened results are as many as the
  input items and the result at each position is related to the input item at that
  position. (The input need not be non-empty for this.)
\<close>

theorem autochunk_order:
  assumes cb: "\<forall>chunk s rs s'. cb chunk s = (Inr rs, s') \<longrightarrow> list_all2 R chunk rs"
    and ok: "autochunk items cb n s = (Inr rs, s')"
  shows "length rs = length items \<and> (\<forall>i < length items. R (items ! i) (rs ! i))"
proof -
  from autochunk_Inr [OF ok] obtain chunks rss where
    p: "autochunk_plan items n [] [] 0 = Inr chunks"
    and r: "autochunk_run chunks cb [] s = (Inr rss, s')"
    and rs: "rs = concat rss"
    by blast
  from autochunk_plan_concat [OF p] have "concat chunks = items" by simp
  moreover from cb have "\<And>chunk s rs s'. cb chunk s = (Inr rs, s') \<Longrightarrow> list_all2 R chunk rs"
    by blast
  from autochunk_run_related [where R = R and pre = "[]", OF this r]
  have "list_all2 R (concat chunks) rs"
    using rs by simp
  ultimately have "list_all2 R items rs" by simp
  then show ?thesis by (simp add: list_all2_conv_all_nth)
qed

theorem autochunk_order_witness:
  "autochunk sample_items returns_costs 0 0 = (Inr [1, 1, 2], 1)
   \<and> length [1, 1, 2 :: nat] = length sample_items
   \<and> [1, 1, 2] ! 2 = itemParameters (sample_items ! 2)"
proof -
  have cb: "\<forall>chunk s rs s'. returns_costs chunk s = (Inr rs, s')
      \<longrightarrow> list_all2 (\<lambda>x y. y = itemParameters x) (chunk :: field item list) rs"
    by (auto simp: returns_costs_def list_all2_conv_all_nth)
  have ok: "autochunk sample_items returns_costs 0 0 = (Inr [1, 1, 2], 1)"
    by (simp add: autochunk_def sample_items_def returns_costs_def itemParameters_def
        D1_MAX_PARAMETERS_def)
  from autochunk_order [OF cb ok] ok show ?thesis
    by (simp add: sample_items_def itemParameters_def)
qed

text \<open>
  C3, as stated: an input with an item of more than 100 parameters makes \<open>autochunk\<close> fail
  with the item error. It does not when the reserved count is itself above 100: the
  precheck comes first. With the object of 101 keys and a reserved count of 101 the
  error is the precheck error.
\<close>

theorem autochunk_item_too_large_counterexample:
  "wide_object \<in> set [wide_object] \<and> itemParameters wide_object > 100
   \<and> fst (autochunk [wide_object] returns_costs 101 0) = Inl PrecheckFailed
   \<and> fst (autochunk [wide_object] returns_costs 101 0)
        \<noteq> Inl (ItemTooLarge (itemParameters wide_object))"
  by (simp add: autochunk_def D1_MAX_PARAMETERS_def itemParameters_def wide_object_def)

text \<open>
  C3, amended: when the reserved count does not exceed 100 and some item has more than
  100 parameters, \<open>autochunk\<close> fails with the item error, which carries the parameter
  count of the first such item; the callback receives no batch and its world is left as
  it was.
\<close>

theorem autochunk_item_too_large:
  assumes "n \<le> 100" and "x \<in> set items" and "itemParameters x > 100"
  shows "\<exists>y. find (\<lambda>i. itemParameters i > 100) items = Some y
    \<and> autochunk items cb n s = (Inl (ItemTooLarge (itemParameters y)), s)
    \<and> calls items cb n s = []"
proof -
  from assms(2,3) obtain y where y: "find (\<lambda>i. itemParameters i > 100) items = Some y"
    by (cases "find (\<lambda>i. itemParameters i > 100) items") (auto simp: find_None_iff)
  then have "autochunk_plan items n [] [] 0 = Inl (itemParameters y)"
    using autochunk_plan_too_large [of items y] by (simp add: D1_MAX_PARAMETERS_def)
  with assms(1) y show ?thesis
    by (simp add: autochunk_def calls_def D1_MAX_PARAMETERS_def)
qed

theorem autochunk_item_too_large_witness:
  "(100::int) \<le> 100 \<and> wide_object \<in> set [Str ''a'', wide_object, Num 3]
   \<and> itemParameters wide_object > 100
   \<and> autochunk [Str ''a'', wide_object, Num 3] returns_costs 100 0 = (Inl (ItemTooLarge 101), 0)
   \<and> calls [Str ''a'', wide_object, Num 3] returns_costs 100 0 = []"
proof -
  have w: "itemParameters wide_object = 101"
    by (simp add: itemParameters_def wide_object_def)
  have f: "find (\<lambda>i. itemParameters i > 100) [Str ''a'', wide_object, Num 3] = Some wide_object"
    by (simp add: w) (simp add: itemParameters_def)
  have p1: "(100::int) \<le> 100" by simp
  have p2: "wide_object \<in> set [Str ''a'', wide_object, Num 3]" by simp
  have p3: "itemParameters wide_object > 100" by (simp add: w)
  from autochunk_item_too_large [OF p1 p2 p3, of returns_costs 0] obtain y where
    y: "find (\<lambda>i. itemParameters i > 100) [Str ''a'', wide_object, Num 3] = Some y"
    and r: "autochunk [Str ''a'', wide_object, Num 3] returns_costs 100 0
              = (Inl (ItemTooLarge (itemParameters y)), 0)"
    and c: "calls [Str ''a'', wide_object, Num 3] returns_costs 100 0 = []"
    by blast
  from y f have "y = wide_object" by simp
  with r c w p2 p3 show ?thesis by simp
qed

text \<open>
  C10, as stated: whenever \<open>autochunk\<close> reaches its second loop, the batches passed to the
  callback concatenate to the input. They do not when the callback rejects a batch that
  is not the last: the loop stops there. With two strings and a reserved count of 99 the
  plan is two batches of one item, and a callback that rejects receives only the first.
\<close>

theorem autochunk_partition_counterexample:
  "\<not> planning_failed (fst (autochunk [Str ''a'', Str ''b'' :: field item] always_rejects 99 0))
   \<and> concat (calls [Str ''a'', Str ''b'' :: field item] always_rejects 99 0) \<noteq> [Str ''a'', Str ''b'']"
  by (simp add: planning_failed_def calls_def autochunk_def logged_def always_rejects_def
      itemParameters_def D1_MAX_PARAMETERS_def)

text \<open>
  C10, amended: whenever \<open>autochunk\<close> reaches its second loop, the batches passed to the
  callback, concatenated in the order of the calls, are an initial part of the input
  sequence (so no item is passed twice or out of order); they are the whole input
  sequence when no call of the callback fails, that is when \<open>autochunk\<close> returns. An empty
  input gives no call and the empty result.
\<close>

theorem autochunk_partition:
  assumes "\<not> planning_failed (fst (autochunk items cb n s))"
  shows "prefix (concat (calls items cb n s)) items
    \<and> ((\<exists>rs. fst (autochunk items cb n s) = Inr rs) \<longrightarrow> concat (calls items cb n s) = items)
    \<and> (items = [] \<longrightarrow> calls items cb n s = [] \<and> autochunk items cb n s = (Inr [], s))"
proof -
  from reaches_execution [OF assms] obtain chunks where
    n: "\<not> n > int D1_MAX_PARAMETERS" and p: "autochunk_plan items n [] [] 0 = Inr chunks"
    by blast
  from autochunk_plan_concat [OF p] have c: "concat chunks = items" by simp
  from calls_planned [OF n p, of cb s]
  have pre: "prefix (calls items cb n s) chunks"
    and f: "(\<exists>rs. fst (autochunk items cb n s) = Inr rs) \<longrightarrow> calls items cb n s = chunks"
    by blast+
  from pre obtain zs where "chunks = calls items cb n s @ zs"
    unfolding prefix_def by blast
  then have "concat chunks = concat (calls items cb n s) @ concat zs"
    by simp
  with c have "prefix (concat (calls items cb n s)) items"
    unfolding prefix_def by blast
  moreover from f c
  have "(\<exists>rs. fst (autochunk items cb n s) = Inr rs) \<longrightarrow> concat (calls items cb n s) = items"
    by blast
  moreover have "items = [] \<longrightarrow> calls items cb n s = [] \<and> autochunk items cb n s = (Inr [], s)"
    using n by (simp add: calls_def autochunk_def)
  ultimately show ?thesis by blast
qed

theorem autochunk_partition_witness:
  "\<not> planning_failed (fst (autochunk sample_items returns_costs 97 0))
   \<and> fst (autochunk sample_items returns_costs 97 0) = Inr [1, 1, 2]
   \<and> calls sample_items returns_costs 97 0
        = [ [Str ''a'', Num 7], [Obj [(''k'', FNum 1), (''l'', FUndefined)]]]
   \<and> concat (calls sample_items returns_costs 97 0) = sample_items"
proof -
  have r: "autochunk sample_items returns_costs 97 0 = (Inr [1, 1, 2], 2)"
    by (simp add: autochunk_def sample_items_def returns_costs_def itemParameters_def
        D1_MAX_PARAMETERS_def)
  have c: "calls sample_items returns_costs 97 0
        = [ [Str ''a'', Num 7], [Obj [(''k'', FNum 1), (''l'', FUndefined)]]]"
    by (simp add: calls_def autochunk_def logged_def sample_items_def returns_costs_def
        itemParameters_def D1_MAX_PARAMETERS_def)
  from autochunk_partition [of sample_items returns_costs 97 0] r c show ?thesis
    by (simp add: planning_failed_def)
qed

lemma autochunk_plan_fit:
  assumes "\<forall>i \<in> set items. int (itemParameters i) + n \<le> 100"
    and "\<forall>b \<in> set chunks. b \<noteq> [] \<and> batchParameters b n \<le> 100"
    and "cp = sum_list (map itemParameters chunk)"
    and "int cp + n \<le> 100"
    and "autochunk_plan items n chunks chunk cp = Inr chunks'"
  shows "\<forall>b \<in> set chunks'. b \<noteq> [] \<and> batchParameters b n \<le> 100"
  using assms
proof (induction items arbitrary: chunks chunk cp)
  case Nil
  then show ?case by (auto simp: batchParameters_def split: if_splits)
next
  case (Cons item items)
  let ?c = "itemParameters item"
  from Cons.prems(1) have fit: "int ?c + n \<le> 100" and rest: "\<forall>i \<in> set items. int (itemParameters i) + n \<le> 100"
    by simp_all
  have small: "\<not> ?c > D1_MAX_PARAMETERS"
    using Cons.prems(5) by (simp split: if_splits)
  show ?case
  proof (cases "int cp + int ?c + n > int D1_MAX_PARAMETERS")
    case True
    with fit have "cp > 0" by (simp add: D1_MAX_PARAMETERS_def)
    with Cons.prems(3) have ne: "chunk \<noteq> []" by auto
    have a: "\<forall>b \<in> set (chunks @ [chunk]). b \<noteq> [] \<and> batchParameters b n \<le> 100"
      using Cons.prems(2,3,4) ne by (auto simp: batchParameters_def)
    have p: "autochunk_plan items n (chunks @ [chunk]) [item] ?c = Inr chunks'"
      using Cons.prems(5) small True by simp
    show ?thesis
      by (rule Cons.IH [OF rest a _ fit p]) simp
  next
    case False
    have p: "autochunk_plan items n chunks (chunk @ [item]) (cp + ?c) = Inr chunks'"
      using Cons.prems(5) small False by simp
    have b: "int (cp + ?c) + n \<le> 100"
      using False by (simp add: D1_MAX_PARAMETERS_def)
    show ?thesis
      by (rule Cons.IH [OF rest Cons.prems(2) _ b p]) (simp add: Cons.prems(3))
  qed
qed

text \<open>
  When every item fits into a batch of its own beside the reserved count, every batch
  passed to the callback is non-empty and within the ceiling. This is so in particular
  when nothing is reserved (the default).
\<close>

lemma autochunk_batches_fit:
  assumes "n \<le> 100" and "\<forall>i \<in> set items. int (itemParameters i) + n \<le> 100"
  shows "\<forall>b \<in> set (calls items cb n s). b \<noteq> [] \<and> batchParameters b n \<le> 100"
proof (cases "autochunk_plan items n [] [] 0")
  case (Inl k)
  with assms(1) show ?thesis by (simp add: calls_def autochunk_def D1_MAX_PARAMETERS_def)
next
  case (Inr chunks)
  from assms(1) have n: "\<not> n > int D1_MAX_PARAMETERS" by (simp add: D1_MAX_PARAMETERS_def)
  have "\<forall>b \<in> set chunks. b \<noteq> [] \<and> batchParameters b n \<le> 100"
    by (rule autochunk_plan_fit [OF assms(2) _ _ _ Inr]) (use assms(1) in simp_all)
  moreover from calls_planned [OF n Inr, of cb s] have "set (calls items cb n s) \<subseteq> set chunks"
    by (auto dest: set_mono_prefix)
  ultimately show ?thesis by blast
qed

text \<open>
  C1. Every batch passed to the callback should be non-empty and cost at most 100 with
  the reserved count, for every reserved count up to 100. The code does not achieve
  this when an item does not fit beside the reserved count: for one string and a
  reserved count of 100 the callback receives first the empty batch and then the
  batch of that string, whose cost with the reserved count is 101.
\<close>

theorem autochunk_batch_empty_and_over_ceiling:
  "(100::int) \<le> 100
   \<and> calls [Str ''x'' :: field item] returns_costs 100 0 = [ [], [Str ''x'']]
   \<and> batchParameters [Str ''x'' :: field item] 100 = 101"
  by (simp add: calls_def autochunk_def logged_def returns_costs_def itemParameters_def
      batchParameters_def D1_MAX_PARAMETERS_def)

section \<open>Properties of the identity resolver\<close>

text \<open>
  C5. \<open>extractUsername\<close> returns \<open>@foo\<close> for \<open>@foo\<close> and no match for
  \<open>https://example.com/x\<close>. For \<open>https://youtube.com/c/Bar\<close> it does not return \<open>Bar\<close>:
  capture group 2 spans the whole path after the host, so the result is \<open>c/Bar\<close>.
  (The function is a HOL function of its input: it has no effect.)
\<close>

theorem extractUsername_examples:
  "extractUsername ''@foo'' = Some ''@foo''
   \<and> extractUsername ''https://youtube.com/c/Bar'' = Some ''c/Bar''
   \<and> extractUsername ''https://youtube.com/c/Bar'' \<noteq> Some ''Bar''
   \<and> extractUsername ''https://example.com/x'' = None"
  by code_simp

section \<open>Properties of the upstream paginator\<close>

lemma getPlaylistVideos_loop_served:
  "pages_served fetch base tok w n = Some (tok', w', vs)
    \<Longrightarrow> getPlaylistVideos_loop fetch base tok videos w
        = getPlaylistVideos_loop fetch base tok' (videos @ vs) w'"
proof (induction n arbitrary: tok w videos vs)
  case 0
  then show ?case by simp
next
  case (Suc n)
  from Suc.prems obtain items "next" w1 vs1 where
    f: "fetch (apiUrl base tok) w = (Page items next, w1)" and t: "truthy next"
    and s: "pages_served fetch base next w1 n = Some (tok', w', vs1)"
    and vs: "vs = map toVideo items @ vs1"
    by (auto split: prod.splits page.splits if_splits option.splits)
  have "getPlaylistVideos_loop fetch base tok videos w
      = getPlaylistVideos_loop fetch base next (videos @ map toVideo items) w1"
    by (subst getPlaylistVideos_loop.simps) (simp add: f t)
  also have "\<dots> = getPlaylistVideos_loop fetch base tok' ((videos @ map toVideo items) @ vs1) w'"
    by (rule Suc.IH [OF s])
  finally show ?case by (simp add: vs)
qed

lemma getPlaylistVideos_loop_failed:
  "fetch (apiUrl base tok) w = (PageFailed e, w')
    \<Longrightarrow> getPlaylistVideos_loop fetch base tok videos w = Some (Inl e, w')"
  by (subst getPlaylistVideos_loop.simps) simp

lemma getPlaylistVideos_loop_last:
  "fetch (apiUrl base tok) w = (Page items nxt, w') \<Longrightarrow> \<not> truthy nxt
    \<Longrightarrow> getPlaylistVideos_loop fetch base tok videos w = Some (Inr (videos @ map toVideo items), w')"
  by (subst getPlaylistVideos_loop.simps) simp

lemma second_page_fails_served:
  "pages_served second_page_fails (playlistItemsUrl ''KEY'' ''PL'') None 0 1
     = Some (Some ''T1'', 1, map toVideo (sample_page ''a'' 1))"
  by (simp add: second_page_fails_def apiUrl_def truthy_def)

lemma second_page_fails_fetch:
  "second_page_fails (apiUrl (playlistItemsUrl ''KEY'' ''PL'') (Some ''T1'')) 1 = (PageFailed (), 2)"
  by (simp add: second_page_fails_def apiUrl_def)

text \<open>
  C6, as stated: when a page fetch fails, \<open>getPlaylistVideos\<close> returns the items of the
  pages fetched before. It does not: with a first page of one video and a second page
  that fails, the function of src/src/index.ts returns the empty list.
\<close>

theorem getPlaylistVideos_accumulated_counterexample:
  "pages_served second_page_fails (playlistItemsUrl ''KEY'' ''PL'') None 0 1
     = Some (Some ''T1'', 1, map toVideo (sample_page ''a'' 1))
   \<and> second_page_fails (apiUrl (playlistItemsUrl ''KEY'' ''PL'') (Some ''T1'')) 1 = (PageFailed (), 2)
   \<and> map toVideo (sample_page ''a'' 1) \<noteq> []
   \<and> getPlaylistVideos second_page_fails ''KEY'' ''PL'' 0 = Some ([], 2)
   \<and> getPlaylistVideos second_page_fails ''KEY'' ''PL'' 0
        \<noteq> Some (map toVideo (sample_page ''a'' 1), 2)"
proof -
  have r: "getPlaylistVideos second_page_fails ''KEY'' ''PL'' 0 = Some ([], 2)"
    using getPlaylistVideos_loop_served [OF second_page_fails_served, of "[]"]
      getPlaylistVideos_loop_failed [where fetch = second_page_fails and tok = "Some ''T1''"
        and videos = "[] @ map toVideo (sample_page ''a'' 1)"
        and base = "playlistItemsUrl ''KEY'' ''PL''", OF second_page_fails_fetch]
    by (simp add: getPlaylistVideos_def)
  have n: "map toVideo (sample_page ''a'' 1) \<noteq> []"
    by (simp add: sample_page_def)
  from r n second_page_fails_served second_page_fails_fetch show ?thesis
    by simp
qed

text \<open>
  C6, amended: when a page fetch fails, at whatever page, \<open>getPlaylistVideos\<close> of
  src/src/index.ts returns the empty list, not the videos of the pages fetched before,
  and throws nothing.
\<close>

theorem getPlaylistVideos_failure_empty:
  assumes "pages_served fetch (playlistItemsUrl apiKey playlistId) None w n = Some (tok, w', vs)"
    and "fetch (apiUrl (playlistItemsUrl apiKey playlistId) tok) w' = (PageFailed e, w'')"
  shows "getPlaylistVideos fetch apiKey playlistId w = Some ([], w'')"
  using getPlaylistVideos_loop_served [OF assms(1), of "[]"]
    getPlaylistVideos_loop_failed [where fetch = fetch and tok = tok and videos = "[] @ vs"
      and base = "playlistItemsUrl apiKey playlistId", OF assms(2)]
  by (simp add: getPlaylistVideos_def)

theorem getPlaylistVideos_failure_empty_witness:
  "pages_served second_page_fails (playlistItemsUrl ''KEY'' ''PL'') None 0 1
     = Some (Some ''T1'', 1, map toVideo (sample_page ''a'' 1))
   \<and> second_page_fails (apiUrl (playlistItemsUrl ''KEY'' ''PL'') (Some ''T1'')) 1 = (PageFailed (), 2)
   \<and> getPlaylistVideos second_page_fails ''KEY'' ''PL'' 0 = Some ([], 2)"
  using getPlaylistVideos_failure_empty [OF second_page_fails_served second_page_fails_fetch]
    second_page_fails_served second_page_fails_fetch
  by simp

text \<open>
  The version of src/unnamed/part_002 has no \<open>try\<close>: there the failure of a page fetch
  is the failure of the function.
\<close>

lemma getPlaylistVideos_db_failure_thrown:
  assumes "pages_served fetch (playlistItemsUrl apiKey playlistId) None w n = Some (tok, w', vs)"
    and "fetch (apiUrl (playlistItemsUrl apiKey playlistId) tok) w' = (PageFailed e, w'')"
  shows "getPlaylistVideos_db fetch apiKey playlistId w = Some (Inl e, w'')"
  using getPlaylistVideos_loop_served [OF assms(1), of "[]"]
    getPlaylistVideos_loop_failed [where fetch = fetch and tok = tok and videos = "[] @ vs"
      and base = "playlistItemsUrl apiKey playlistId", OF assms(2)]
  by (simp add: getPlaylistVideos_db_def)

text \<open>
  C8. When the fetch serves three pages of 50, 50 and 10 items, the first two with a
  continuation token (a non-empty string) for the next and the third with none,
  \<open>getPlaylistVideos\<close> (in both versions) returns the 110 videos of the three pages, page
  after page, each page in its own order.
\<close>

theorem getPlaylistVideos_three_pages:
  assumes "fetch (playlistItemsUrl apiKey playlistId) w0 = (Page items1 (Some t1), w1)"
    and "t1 \<noteq> []"
    and "fetch (playlistItemsUrl apiKey playlistId @ ''&pageToken='' @ t1) w1
          = (Page items2 (Some t2), w2)"
    and "t2 \<noteq> []"
    and "fetch (playlistItemsUrl apiKey playlistId @ ''&pageToken='' @ t2) w2
          = (Page items3 None, w3)"
    and "length items1 = 50" and "length items2 = 50" and "length items3 = 10"
  shows "getPlaylistVideos fetch apiKey playlistId w0
          = Some (map toVideo items1 @ map toVideo items2 @ map toVideo items3, w3)
    \<and> getPlaylistVideos_db fetch apiKey playlistId w0
          = Some (Inr (map toVideo items1 @ map toVideo items2 @ map toVideo items3), w3)
    \<and> length (map toVideo items1 @ map toVideo items2 @ map toVideo items3) = 110"
proof -
  let ?base = "playlistItemsUrl apiKey playlistId"
  have "pages_served fetch ?base None w0 2
      = Some (Some t2, w2, map toVideo items1 @ map toVideo items2)"
    using assms(1-4) by (simp add: numeral_2_eq_2 apiUrl_def truthy_def)
  from getPlaylistVideos_loop_served [OF this, of "[]"]
  have "getPlaylistVideos_loop fetch ?base None [] w0
      = getPlaylistVideos_loop fetch ?base (Some t2) (map toVideo items1 @ map toVideo items2) w2"
    by simp
  also have "\<dots> = Some (Inr ((map toVideo items1 @ map toVideo items2) @ map toVideo items3), w3)"
    using assms(4,5)
      getPlaylistVideos_loop_last [where fetch = fetch and base = ?base and tok = "Some t2"
        and w = w2 and items = items3 and nxt = None and w' = w3
        and videos = "map toVideo items1 @ map toVideo items2"]
    by (simp add: apiUrl_def truthy_def)
  finally show ?thesis
    using assms(6-8) by (simp add: getPlaylistVideos_def getPlaylistVideos_db_def)
qed

theorem getPlaylistVideos_three_pages_witness:
  "getPlaylistVideos three_pages ''KEY'' ''PL'' 0
     = Some (map toVideo (sample_page ''a'' 50) @ map toVideo (sample_page ''b'' 50)
             @ map toVideo (sample_page ''c'' 10), 3)
   \<and> getPlaylistVideos_db three_pages ''KEY'' ''PL'' 0
     = Some (Inr (map toVideo (sample_page ''a'' 50) @ map toVideo (sample_page ''b'' 50)
             @ map toVideo (sample_page ''c'' 10)), 3)
   \<and> length (map toVideo (sample_page ''a'' 50) @ map toVideo (sample_page ''b'' 50)
             @ map toVideo (sample_page ''c'' 10)) = 110"
proof -
  have 1: "three_pages (playlistItemsUrl ''KEY'' ''PL'') 0 = (Page (sample_page ''a'' 50) (Some ''T1''), 1)"
    by (simp add: three_pages_def)
  have 2: "three_pages (playlistItemsUrl ''KEY'' ''PL'' @ ''&pageToken='' @ ''T1'') 1
      = (Page (sample_page ''b'' 50) (Some ''T2''), 2)"
    by (simp add: three_pages_def)
  have 3: "three_pages (playlistItemsUrl ''KEY'' ''PL'' @ ''&pageToken='' @ ''T2'') 2
      = (Page (sample_page ''c'' 10) None, 3)"
    by (simp add: three_pages_def)
  have t: "''T1'' \<noteq> []" "''T2'' \<noteq> []" by simp_all
  have l: "length (sample_page ''a'' 50) = 50" "length (sample_page ''b'' 50) = 50"
    "length (sample_page ''c'' 10) = 10"
    by (simp_all add: sample_page_def)
  from getPlaylistVideos_three_pages [OF 1 t(1) 2 t(2) 3 l] show ?thesis .
qed

section \<open>Properties of \<open>batchInsertVideos\<close>\<close>

lemma dom_fold_upd:
  "dom (fold (\<lambda>(k, v) m. m(k \<mapsto> v)) entries m0) = dom m0 \<union> fst ` set entries"
  by (induction entries arbitrary: m0) auto

lemma has_new_Map: "has (new_Map entries) k \<longleftrightarrow> k \<in> fst ` set entries"
  using dom_fold_upd [of entries Map.empty] by (auto simp: has_def new_Map_def dom_def)

lemma itemParameters_row_object: "itemParameters (row_object v) = 5"
  by (simp add: itemParameters_def row_object_def)

lemma row_object_videoId: "row_object v = row_object v' \<Longrightarrow> video_data.videoId v = video_data.videoId v'"
  by (simp add: row_object_def)

lemma autochunk_plan_small:
  "\<forall>i \<in> set items. \<not> itemParameters i > D1_MAX_PARAMETERS
    \<Longrightarrow> \<exists>chunks'. autochunk_plan items n chunks chunk cp = Inr chunks'"
  by (induction items arbitrary: chunks chunk cp) auto

lemma calls_prefix_input:
  assumes "n \<le> 100" and "\<forall>i \<in> set items. \<not> itemParameters i > D1_MAX_PARAMETERS"
  shows "prefix (concat (calls items cb n s)) items
    \<and> ((\<exists>rs. fst (autochunk items cb n s) = Inr rs) \<longrightarrow> concat (calls items cb n s) = items)"
proof -
  from assms(1) have n: "\<not> n > int D1_MAX_PARAMETERS" by (simp add: D1_MAX_PARAMETERS_def)
  from autochunk_plan_small [OF assms(2)] obtain chunks where
    p: "autochunk_plan items n [] [] 0 = Inr chunks" by blast
  from autochunk_plan_concat [OF p] have c: "concat chunks = items" by simp
  from calls_planned [OF n p, of cb s]
  have pre: "prefix (calls items cb n s) chunks"
    and f: "(\<exists>rs. fst (autochunk items cb n s) = Inr rs) \<longrightarrow> calls items cb n s = chunks"
    by blast+
  from pre obtain zs where "chunks = calls items cb n s @ zs"
    unfolding prefix_def by blast
  then have "concat chunks = concat (calls items cb n s) @ concat zs"
    by simp
  with c have "prefix (concat (calls items cb n s)) items"
    unfolding prefix_def by blast
  with f c show ?thesis by blast
qed

lemma newVideos_filter:
  "filter (\<lambda>v. \<not> has (new_Map (map (\<lambda>v. (video_ref.videoId v, row_id v)) existingVideos))
                   (video_data.videoId v)) videosData
   = newVideos existingVideos videosData"
  unfolding newVideos_def by (rule filter_cong) (auto simp: has_new_Map image_iff)

lemma inserted_batches_calls:
  assumes "select_videos db = (Inr existingVideos, db1)"
  shows "inserted_batches videosData select_videos insert_videos db
      = calls (map row_object (newVideos existingVideos videosData)) insert_videos 0 db1"
  using assms
  by (simp add: inserted_batches_def batchInsertVideos_def calls_def newVideos_filter
      split: prod.splits sum.splits)

lemma batchInsertVideos_returns:
  assumes "select_videos db = (Inr existingVideos, db1)"
  shows "(\<exists>m. fst (batchInsertVideos videosData select_videos insert_videos db) = Inr m)
    \<longleftrightarrow> (\<exists>rs. fst (autochunk (map row_object (newVideos existingVideos videosData)) insert_videos 0 db1) = Inr rs)"
  using assms
  by (auto simp: batchInsertVideos_def newVideos_filter split: prod.splits sum.splits)

text \<open>
  C9, as stated: the rows passed to the insert operation are exactly the rows of the
  input whose video ID is not in the store. They are not when an insert fails before
  the last batch: with an empty store and 21 rows (two batches, of 20 rows and of one)
  an insert operation that rejects receives the first 20 rows only.
\<close>

theorem batchInsertVideos_exactly_new_counterexample:
  "select_none 0 = (Inr [], 0)
   \<and> newVideos [] (sample_rows 21) = sample_rows 21
   \<and> concat (inserted_batches (sample_rows 21) select_none always_rejects 0)
        = map row_object (sample_rows 20)
   \<and> concat (inserted_batches (sample_rows 21) select_none always_rejects 0)
        \<noteq> map row_object (newVideos [] (sample_rows 21))"
  by code_simp

text \<open>
  C9, amended: let the store hold the rows \<open>existingVideos\<close> when \<open>batchInsertVideos\<close>
  reads it. The rows passed to the insert operation, in the order in which they are
  passed, are an initial part of the rows of the input whose video ID is not in the
  store; they are exactly those rows when no insert fails, that is when
  \<open>batchInsertVideos\<close> returns. A row whose video ID is in the store is never passed to
  the insert operation.
\<close>

theorem batchInsertVideos_skips_existing:
  assumes "select_videos db = (Inr existingVideos, db1)"
  shows "prefix (concat (inserted_batches videosData select_videos insert_videos db))
           (map row_object (newVideos existingVideos videosData))
    \<and> ((\<exists>m. fst (batchInsertVideos videosData select_videos insert_videos db) = Inr m)
         \<longrightarrow> concat (inserted_batches videosData select_videos insert_videos db)
               = map row_object (newVideos existingVideos videosData))
    \<and> (\<forall>v \<in> set videosData.
          video_data.videoId v \<in> set (map video_ref.videoId existingVideos)
           \<longrightarrow> row_object v \<notin> set (concat (inserted_batches videosData select_videos insert_videos db)))"
proof -
  let ?new = "map row_object (newVideos existingVideos videosData)"
  let ?ins = "concat (inserted_batches videosData select_videos insert_videos db)"
  have small: "\<forall>i \<in> set ?new. \<not> itemParameters i > D1_MAX_PARAMETERS"
    by (auto simp: itemParameters_row_object D1_MAX_PARAMETERS_def)
  from calls_prefix_input [OF _ small, of 0 insert_videos db1]
  have pre: "prefix ?ins ?new"
    and all: "(\<exists>m. fst (batchInsertVideos videosData select_videos insert_videos db) = Inr m)
         \<longrightarrow> ?ins = ?new"
    using inserted_batches_calls [of select_videos db existingVideos db1 videosData insert_videos]
      batchInsertVideos_returns [of select_videos db existingVideos db1 videosData insert_videos]
      assms
    by simp_all
  have "row_object v \<notin> set ?ins"
    if "video_data.videoId v \<in> set (map video_ref.videoId existingVideos)" for v
  proof
    assume "row_object v \<in> set ?ins"
    moreover from pre have "set ?ins \<subseteq> set ?new" by (rule set_mono_prefix)
    ultimately have "row_object v \<in> set ?new" by (rule subsetD [rotated])
    then obtain v' where "v' \<in> set (newVideos existingVideos videosData)"
      and "row_object v = row_object v'" by auto
    with that show False by (auto simp: newVideos_def dest: row_object_videoId)
  qed
  with pre all show ?thesis by blast
qed

theorem batchInsertVideos_skips_existing_witness:
  "select_one 0 = (Inr [\<lparr>row_id = 1, video_ref.videoId = ''v''\<rparr>], 0)
   \<and> concat (inserted_batches (sample_rows 3) select_one insert_ok 0)
        = map row_object (newVideos [\<lparr>row_id = 1, video_ref.videoId = ''v''\<rparr>] (sample_rows 3))
   \<and> row_object (sample_rows 3 ! 0)
        \<notin> set (concat (inserted_batches (sample_rows 3) select_one insert_ok 0))"
proof -
  have s: "select_one 0 = (Inr [\<lparr>row_id = 1, video_ref.videoId = ''v''\<rparr>], 0)"
    by (simp add: select_one_def)
  have "case fst (batchInsertVideos (sample_rows 3) select_one insert_ok 0) of
          Inl e \<Rightarrow> False | Inr m \<Rightarrow> True"
    by code_simp
  then have r: "\<exists>m. fst (batchInsertVideos (sample_rows 3) select_one insert_ok 0) = Inr m"
    by (simp split: sum.splits)
  have m: "sample_rows 3 ! 0 \<in> set (sample_rows 3)"
    by (simp add: sample_rows_def)
  have k: "video_data.videoId (sample_rows 3 ! 0)
      \<in> set (map video_ref.videoId [\<lparr>row_id = 1, video_ref.videoId = ''v''\<rparr>])"
    by (simp add: sample_rows_def)
  from batchInsertVideos_skips_existing [of select_one 0
      "[\<lparr>row_id = 1, video_ref.videoId = ''v''\<rparr>]" 0 "sample_rows 3" insert_ok] s r m k
  show ?thesis by blast
qed

section \<open>Properties of the statistics fetch and of the response\<close>

text \<open>
  The groups of \<open>batchGetVideoStatistics\<close> cut the list of IDs into consecutive pieces of
  at most 50 IDs, none of them empty.
\<close>

lemma concat_batches_from: "concat (batches_from i videoIds) = drop i videoIds"
proof (induction i videoIds rule: batches_from.induct)
  case (1 i videoIds)
  show ?case
  proof (cases "i < length videoIds")
    case True
    from True 1 have "concat (batches_from i videoIds)
        = take batchSize (drop i videoIds) @ drop (i + batchSize) videoIds"
      by (subst batches_from.simps) simp
    also have "drop (i + batchSize) videoIds = drop batchSize (drop i videoIds)"
      by (simp only: drop_drop add.commute)
    finally show ?thesis by (simp only: append_take_drop_id)
  next
    case False
    then show ?thesis by (subst batches_from.simps) simp
  qed
qed

lemma batches_from_size:
  "g \<in> set (batches_from i videoIds) \<Longrightarrow> g \<noteq> [] \<and> length g \<le> 50"
proof (induction i videoIds rule: batches_from.induct)
  case (1 i videoIds)
  from "1.prems" have lt: "i < length videoIds"
    by (subst (asm) batches_from.simps) (simp split: if_splits)
  with "1.prems" have "g = take batchSize (drop i videoIds) \<or> g \<in> set (batches_from (i + batchSize) videoIds)"
    by (subst (asm) batches_from.simps) simp
  with lt "1.IH" show ?case by (auto simp: batchSize_def)
qed

lemma videosWithStats_nth:
  "i < length videos \<Longrightarrow>
   videosWithStats username videos stats ! i =
     \<lparr>videoID = video.videoId (videos ! i),
      channelName = username,
      title = videoTitle (videos ! i),
      url = ''https://www.youtube.com/watch?v='' @ video.videoId (videos ! i),
      response_video.viewCount =
        orNA (map_option stat.viewCount (find (\<lambda>s. stat.videoId s = video.videoId (videos ! i)) stats)),
      response_video.likeCount =
        orNA (map_option stat.likeCount (find (\<lambda>s. stat.videoId s = video.videoId (videos ! i)) stats)),
      response_video.commentCount =
        orNA (map_option stat.commentCount (find (\<lambda>s. stat.videoId s = video.videoId (videos ! i)) stats)),
      response_video.thumbnailUrl = video.thumbnailUrl (videos ! i)\<rparr>"
  by (simp add: videosWithStats_def Let_def)

lemma getVideoStatistics_db_failed:
  "fetch (videosUrl apiKey g) = StatsFailed \<Longrightarrow> getVideoStatistics_db fetch apiKey g = []"
  by (simp add: getVideoStatistics_db_def)

text \<open>
  The older \<open>getVideoStatistics\<close> of src/src/index.ts returns one row for each requested
  ID, in the order of the request.
\<close>

lemma find_Some_holds: "find P xs = Some x \<Longrightarrow> P x"
  by (induction xs) (auto split: if_splits)

lemma getVideoStatistics_one_row_per_id:
  "map stat.videoId (getVideoStatistics fetch apiKey videoIds) = videoIds"
proof -
  have "stat.videoId (case find (\<lambda>s. stat.videoId s = i) sts of
                        Some st \<Rightarrow> st | None \<Rightarrow> notAvailable i) = i" for i sts
    by (auto simp: notAvailable_def split: option.splits dest: find_Some_holds)
  then show ?thesis
    by (auto simp: getVideoStatistics_def notAvailable_def comp_def map_idI
        split: stats_response.splits option.splits)
qed

section \<open>Properties of the aggregation\<close>

lemma find_append_first:
  "find P (xs @ ys) = (case find P xs of Some x \<Rightarrow> Some x | None \<Rightarrow> find P ys)"
  by (induction xs) auto

lemma find_map_fun: "find P (map f xs) = map_option f (find (\<lambda>x. P (f x)) xs)"
  by (induction xs) auto

lemma find_concat_first:
  "j < length xss \<Longrightarrow> \<forall>k<j. find P (xss ! k) = None \<Longrightarrow> find P (xss ! j) = Some y
    \<Longrightarrow> find P (concat xss) = Some y"
proof (induction xss arbitrary: j)
  case Nil
  then show ?case by simp
next
  case (Cons xs xss)
  show ?case
  proof (cases j)
    case 0
    with Cons.prems(3) show ?thesis by (simp add: find_append_first)
  next
    case (Suc j')
    with Cons.prems(2) have n: "find P xs = None" by auto
    from Suc Cons.prems have "find P (concat xss) = Some y"
      by (intro Cons.IH [of j']) auto
    with n show ?thesis by (simp add: find_append_first)
  qed
qed

lemma returned_nothing_find:
  "returned_nothing fetch apiKey g x
    \<Longrightarrow> find (\<lambda>s. stat.videoId s = x) (getVideoStatistics_db fetch apiKey g) = None"
  by (auto simp: returned_nothing_def getVideoStatistics_db_def find_None_iff toStat_def list_all_iff
      split: stats_response.splits option.splits)

lemma answered_find:
  "fetch (videosUrl apiKey g) = Stats (Some items) \<Longrightarrow> find (\<lambda>item. item_id item = x) items = Some it
    \<Longrightarrow> find (\<lambda>s. stat.videoId s = x) (getVideoStatistics_db fetch apiKey g) = Some (toStat it)"
  by (simp add: getVideoStatistics_db_def find_map_fun toStat_def)

lemma batchGetVideoStatistics_db_nothing:
  assumes "\<forall>g \<in> set (batches_from 0 videoIds). returned_nothing fetch apiKey g x"
  shows "find (\<lambda>s. stat.videoId s = x) (batchGetVideoStatistics_db fetch apiKey videoIds) = None"
proof -
  have "\<forall>g \<in> set (batches_from 0 videoIds).
          \<forall>s \<in> set (getVideoStatistics_db fetch apiKey g). stat.videoId s \<noteq> x"
    using assms returned_nothing_find [of fetch apiKey _ x] by (auto simp: find_None_iff)
  then show ?thesis
    by (auto simp: find_None_iff batchGetVideoStatistics_db_def)
qed

lemma batchGetVideoStatistics_db_first:
  assumes "j < length (batches_from 0 videoIds)"
    and "\<forall>k<j. returned_nothing fetch apiKey (batches_from 0 videoIds ! k) x"
    and "fetch (videosUrl apiKey (batches_from 0 videoIds ! j)) = Stats (Some items)"
    and "find (\<lambda>item. item_id item = x) items = Some it"
  shows "find (\<lambda>s. stat.videoId s = x) (batchGetVideoStatistics_db fetch apiKey videoIds)
          = Some (toStat it)"
  unfolding batchGetVideoStatistics_db_def
proof (rule find_concat_first [where j = j])
  show "j < length (map (getVideoStatistics_db fetch apiKey) (batches_from 0 videoIds))"
    using assms(1) by simp
  show "\<forall>k<j. find (\<lambda>s. stat.videoId s = x)
            (map (getVideoStatistics_db fetch apiKey) (batches_from 0 videoIds) ! k) = None"
    using assms(1,2) by (simp add: returned_nothing_find)
  show "find (\<lambda>s. stat.videoId s = x)
          (map (getVideoStatistics_db fetch apiKey) (batches_from 0 videoIds) ! j) = Some (toStat it)"
    using assms(1,3,4)
      answered_find [of fetch apiKey "batches_from 0 videoIds ! j" items x it]
    by simp
qed

lemma aggregation_Json:
  assumes "aggregation fetch apiKey username videos select_channel insert_channel select_videos
             insert_videos insert_statistics db = (Inr (Json r), db')"
  shows "r = \<lparr>status = ''200 OK'', totalVideos = length videos,
              videos_json = videosWithStats username videos
                (batchGetVideoStatistics_db fetch apiKey (map video.videoId videos))\<rparr>"
  using assms
  by (auto simp: aggregation_def Let_def videosWithStats_def
      split: if_splits prod.splits sum.splits option.splits)


lemma autochunk_run_succeeds:
  assumes "\<forall>chunk d. \<exists>rs d'. cb chunk d = (Inr rs, d')"
  shows "\<exists>rss s'. autochunk_run chunks cb results s = (Inr rss, s')"
proof (induction chunks arbitrary: results s)
  case Nil
  then show ?case by simp
next
  case (Cons chunk chunks)
  from assms obtain rs d' where "cb chunk s = (Inr rs, d')" by blast
  with Cons.IH [of "results @ [rs]" d'] show ?case by simp
qed

lemma autochunk_succeeds:
  assumes "\<forall>chunk d. \<exists>rs d'. cb chunk d = (Inr rs, d')"
    and "n \<le> 100" and "\<forall>i \<in> set items. \<not> itemParameters i > D1_MAX_PARAMETERS"
  shows "\<exists>rs s'. autochunk items cb n s = (Inr rs, s')"
proof -
  from autochunk_plan_small [OF assms(3)] obtain chunks where
    p: "autochunk_plan items n [] [] 0 = Inr chunks" by blast
  from autochunk_run_succeeds [OF assms(1)] obtain rss s' where
    "autochunk_run chunks cb [] s = (Inr rss, s')" by blast
  with p assms(2) show ?thesis
    by (simp add: autochunk_def D1_MAX_PARAMETERS_def)
qed

lemma itemParameters_stat_object: "itemParameters (stat_object m st) = 4"
  by (simp add: itemParameters_def stat_object_def)

text \<open>
  The handler answers with the JSON response when the playlist is not empty and no
  database operation rejects (the insert of the channel returning the row written).
\<close>

lemma aggregation_returns:
  assumes "videos \<noteq> []"
    and "\<forall>name d. \<exists>c d'. select_channel name d = (Inr c, d')"
    and "\<forall>name d. \<exists>row rows d'. insert_channel name d = (Inr (row # rows), d')"
    and "\<forall>d. \<exists>existing d'. select_videos d = (Inr existing, d')"
    and "\<forall>chunk d. \<exists>rs d'. insert_videos chunk d = (Inr rs, d')"
    and "\<forall>chunk d. \<exists>rs d'. insert_statistics chunk d = (Inr rs, d')"
  shows "\<exists>r db'. aggregation fetch apiKey username videos select_channel insert_channel
                    select_videos insert_videos insert_statistics db = (Inr (Json r), db')"
proof -
  have "\<exists>c db1. insertChannel username select_channel insert_channel db = (Inr (Some c), db1)"
  proof -
    from assms(2) obtain c d' where s: "select_channel username db = (Inr c, d')" by blast
    from assms(3) obtain row rows d'' where "insert_channel username d' = (Inr (row # rows), d'')"
      by blast
    with s show ?thesis by (cases c) (simp_all add: insertChannel_def)
  qed
  then obtain c db1 where 1: "insertChannel username select_channel insert_channel db = (Inr (Some c), db1)"
    by blast
  have "\<exists>m db2. batchInsertVideos vd select_videos insert_videos db1 = (Inr m, db2)" for vd
  proof -
    from assms(4) obtain existing d' where s: "select_videos db1 = (Inr existing, d')" by blast
    have "\<exists>rs s'. autochunk (map row_object (newVideos existing vd)) insert_videos 0 d' = (Inr rs, s')"
      by (rule autochunk_succeeds [OF assms(5)])
        (auto simp: itemParameters_row_object D1_MAX_PARAMETERS_def)
    with s show ?thesis
      by (auto simp: batchInsertVideos_def newVideos_filter)
  qed
  then obtain m db2 where 2: "batchInsertVideos
      (map (\<lambda>v. \<lparr>video_data.videoId = video.videoId v, channelId = channel_id c,
                  video_data.title = videoTitle v,
                  video_data.url = ''https://www.youtube.com/watch?v='' @ video.videoId v,
                  video_data.thumbnailUrl = video.thumbnailUrl v\<rparr>) videos)
      select_videos insert_videos db1 = (Inr m, db2)"
    by blast
  have "\<exists>rs db3. batchInsertVideoStatistics
      (batchGetVideoStatistics_db fetch apiKey (map video.videoId videos)) m insert_statistics db2
        = (Inr rs, db3)"
    unfolding batchInsertVideoStatistics_def
    by (rule autochunk_succeeds [OF assms(6)])
      (auto simp: itemParameters_stat_object D1_MAX_PARAMETERS_def)
  then obtain rs db3 where 3: "batchInsertVideoStatistics
      (batchGetVideoStatistics_db fetch apiKey (map video.videoId videos)) m insert_statistics db2
        = (Inr rs, db3)"
    by blast
  from assms(1) 1 2 3 show ?thesis
    by (simp add: aggregation_def Let_def)
qed

text \<open>
  C7. Whenever the handler answers with the JSON response, which it does unless one of
  the persistence steps throws, the video list of the response has one entry for each
  video fetched, in order, with the ID of that video. When every group of the
  statistics fetch returned nothing for the ID of a video, its entry has \<open>N/A\<close> for
  \<open>viewCount\<close>, \<open>likeCount\<close> and \<open>commentCount\<close>; a group whose fetch failed returned nothing
  for any ID. When the platform answered a group with items of which \<open>it\<close> is the first
  with the ID of the video, and the groups before it returned nothing for that ID, the
  entry has the three counts of \<open>it\<close>, as the platform gave them (a fetched count being
  a non-empty string: the empty string is falsy and is shown as \<open>N/A\<close> too).
\<close>

theorem aggregation_statistics:
  assumes "aggregation fetch apiKey username videos select_channel insert_channel select_videos
             insert_videos insert_statistics db = (Inr (Json r), db')"
  shows "totalVideos r = length videos \<and> length (videos_json r) = length videos
    \<and> (\<forall>i < length videos.
          videoID (videos_json r ! i) = video.videoId (videos ! i)
          \<and> ((\<forall>g \<in> set (batches_from 0 (map video.videoId videos)).
                 returned_nothing fetch apiKey g (video.videoId (videos ! i)))
              \<longrightarrow> response_video.viewCount (videos_json r ! i) = ''N/A''
                \<and> response_video.likeCount (videos_json r ! i) = ''N/A''
                \<and> response_video.commentCount (videos_json r ! i) = ''N/A'')
          \<and> (\<forall>j items it.
                 j < length (batches_from 0 (map video.videoId videos))
                 \<and> (\<forall>k<j. returned_nothing fetch apiKey
                              (batches_from 0 (map video.videoId videos) ! k)
                              (video.videoId (videos ! i)))
                 \<and> fetch (videosUrl apiKey (batches_from 0 (map video.videoId videos) ! j))
                      = Stats (Some items)
                 \<and> find (\<lambda>item. item_id item = video.videoId (videos ! i)) items = Some it
                 \<longrightarrow> (statistics_viewCount it \<noteq> []
                        \<longrightarrow> response_video.viewCount (videos_json r ! i) = statistics_viewCount it)
                   \<and> (statistics_likeCount it \<noteq> []
                        \<longrightarrow> response_video.likeCount (videos_json r ! i) = statistics_likeCount it)
                   \<and> (statistics_commentCount it \<noteq> []
                        \<longrightarrow> response_video.commentCount (videos_json r ! i)
                              = statistics_commentCount it)))
    \<and> (\<forall>g x. fetch (videosUrl apiKey g) = StatsFailed \<longrightarrow> returned_nothing fetch apiKey g x)"
proof -
  let ?ids = "map video.videoId videos"
  let ?stats = "batchGetVideoStatistics_db fetch apiKey ?ids"
  from aggregation_Json [OF assms]
  have t: "totalVideos r = length videos"
    and v: "videos_json r = videosWithStats username videos ?stats"
    by simp_all
  have l: "length (videos_json r) = length videos"
    by (simp add: v videosWithStats_def)
  have e: "videos_json r ! i =
      \<lparr>videoID = video.videoId (videos ! i),
       channelName = username,
       title = videoTitle (videos ! i),
       url = ''https://www.youtube.com/watch?v='' @ video.videoId (videos ! i),
       response_video.viewCount =
         orNA (map_option stat.viewCount (find (\<lambda>s. stat.videoId s = video.videoId (videos ! i)) ?stats)),
       response_video.likeCount =
         orNA (map_option stat.likeCount (find (\<lambda>s. stat.videoId s = video.videoId (videos ! i)) ?stats)),
       response_video.commentCount =
         orNA (map_option stat.commentCount (find (\<lambda>s. stat.videoId s = video.videoId (videos ! i)) ?stats)),
       response_video.thumbnailUrl = video.thumbnailUrl (videos ! i)\<rparr>"
    if "i < length videos" for i
    using that by (simp add: v videosWithStats_nth)
  have na: "response_video.viewCount (videos_json r ! i) = ''N/A''
      \<and> response_video.likeCount (videos_json r ! i) = ''N/A''
      \<and> response_video.commentCount (videos_json r ! i) = ''N/A''"
    if "i < length videos"
      and "\<forall>g \<in> set (batches_from 0 ?ids). returned_nothing fetch apiKey g (video.videoId (videos ! i))"
    for i
    using batchGetVideoStatistics_db_nothing [OF that(2)] by (simp add: e [OF that(1)] orNA_def)
  have keep: "(statistics_viewCount it \<noteq> []
          \<longrightarrow> response_video.viewCount (videos_json r ! i) = statistics_viewCount it)
      \<and> (statistics_likeCount it \<noteq> []
          \<longrightarrow> response_video.likeCount (videos_json r ! i) = statistics_likeCount it)
      \<and> (statistics_commentCount it \<noteq> []
          \<longrightarrow> response_video.commentCount (videos_json r ! i) = statistics_commentCount it)"
    if "i < length videos" and "j < length (batches_from 0 ?ids)"
      and "\<forall>k<j. returned_nothing fetch apiKey (batches_from 0 ?ids ! k) (video.videoId (videos ! i))"
      and "fetch (videosUrl apiKey (batches_from 0 ?ids ! j)) = Stats (Some items)"
      and "find (\<lambda>item. item_id item = video.videoId (videos ! i)) items = Some it"
    for i j items it
    using batchGetVideoStatistics_db_first [of j ?ids fetch apiKey "video.videoId (videos ! i)" items it]
      that(2-5)
    by (simp add: e [OF that(1)] orNA_def toStat_def)
  have failed: "returned_nothing fetch apiKey g x" if "fetch (videosUrl apiKey g) = StatsFailed" for g x
    using that by (simp add: returned_nothing_def)
  from t l e na keep failed show ?thesis
    by (intro conjI allI impI) (simp_all, blast+)
qed


lemma sample_reply_Json: "sample_reply = (Inr (Json sample_json), snd sample_reply)"
proof -
  have "case fst sample_reply of Inr (Json r) \<Rightarrow> True | Inr (Text t) \<Rightarrow> False | Inl e \<Rightarrow> False"
    by code_simp
  then obtain r where f: "fst sample_reply = Inr (Json r)"
    by (auto split: sum.splits reply.splits)
  then have "sample_json = r"
    by (simp add: sample_json_def)
  with f show ?thesis
    by (simp add: prod_eq_iff)
qed

theorem aggregation_statistics_witness:
  "sample_reply = (Inr (Json sample_json), snd sample_reply)
   \<and> totalVideos sample_json = 51
   \<and> first_group_fails (videosUrl ''KEY'' (map video.videoId (sample_videos 50))) = StatsFailed
   \<and> response_video.viewCount (videos_json sample_json ! 0) = ''N/A''
   \<and> response_video.likeCount (videos_json sample_json ! 0) = ''N/A''
   \<and> response_video.commentCount (videos_json sample_json ! 0) = ''N/A''
   \<and> response_video.viewCount (videos_json sample_json ! 50) = ''10''
   \<and> response_video.likeCount (videos_json sample_json ! 50) = ''2''
   \<and> response_video.commentCount (videos_json sample_json ! 50) = ''0''"
proof -
  let ?gs = "batches_from 0 (map video.videoId (sample_videos 51))"
  have a: "aggregation first_group_fails ''KEY'' ''@u'' (sample_videos 51)
       no_channel channel_written select_none insert_ok statistics_written 0
     = (Inr (Json sample_json), snd sample_reply)"
    using sample_reply_Json by (simp add: sample_reply_def)
  note T = aggregation_statistics [OF a]
  have len: "length (sample_videos 51) = 51"
    by (simp add: sample_videos_def)
  have failed: "first_group_fails (videosUrl ''KEY'' (map video.videoId (sample_videos 50))) = StatsFailed"
    by code_simp
  have none0: "\<forall>g \<in> set ?gs. returned_nothing first_group_fails ''KEY'' g
                   (video.videoId (sample_videos 51 ! 0))"
    by code_simp
  have j: "(1::nat) < length ?gs"
    by code_simp
  have before: "\<forall>k<1. returned_nothing first_group_fails ''KEY'' (?gs ! k)
                   (video.videoId (sample_videos 51 ! 50))"
  proof -
    have "returned_nothing first_group_fails ''KEY'' (?gs ! 0) (video.videoId (sample_videos 51 ! 50))"
      by code_simp
    then show ?thesis by simp
  qed
  have answer: "first_group_fails (videosUrl ''KEY'' (?gs ! 1))
      = Stats (Some [\<lparr>item_id = replicate 51 CHR ''v'', statistics_viewCount = ''10'',
                       statistics_likeCount = ''2'', statistics_commentCount = ''0''\<rparr>])"
    by code_simp
  have found: "find (\<lambda>item. item_id item = video.videoId (sample_videos 51 ! 50))
        [\<lparr>item_id = replicate 51 CHR ''v'', statistics_viewCount = ''10'',
          statistics_likeCount = ''2'', statistics_commentCount = ''0''\<rparr>]
      = Some \<lparr>item_id = replicate 51 CHR ''v'', statistics_viewCount = ''10'',
               statistics_likeCount = ''2'', statistics_commentCount = ''0''\<rparr>"
    by code_simp
  from T len have total: "totalVideos sample_json = 51" by simp
  from T len have at0: "(\<forall>g \<in> set ?gs. returned_nothing first_group_fails ''KEY'' g
                           (video.videoId (sample_videos 51 ! 0)))
      \<longrightarrow> response_video.viewCount (videos_json sample_json ! 0) = ''N/A''
        \<and> response_video.likeCount (videos_json sample_json ! 0) = ''N/A''
        \<and> response_video.commentCount (videos_json sample_json ! 0) = ''N/A''"
    by (elim conjE allE [where x = 0]) simp
  from T len have at50: "\<forall>j items it.
        j < length ?gs
        \<and> (\<forall>k<j. returned_nothing first_group_fails ''KEY'' (?gs ! k)
                     (video.videoId (sample_videos 51 ! 50)))
        \<and> first_group_fails (videosUrl ''KEY'' (?gs ! j)) = Stats (Some items)
        \<and> find (\<lambda>item. item_id item = video.videoId (sample_videos 51 ! 50)) items = Some it
        \<longrightarrow> (statistics_viewCount it \<noteq> []
               \<longrightarrow> response_video.viewCount (videos_json sample_json ! 50) = statistics_viewCount it)
          \<and> (statistics_likeCount it \<noteq> []
               \<longrightarrow> response_video.likeCount (videos_json sample_json ! 50) = statistics_likeCount it)
          \<and> (statistics_commentCount it \<noteq> []
               \<longrightarrow> response_video.commentCount (videos_json sample_json ! 50)
                     = statistics_commentCount it)"
    by (elim conjE allE [where x = 50]) simp
  from at50 [rule_format, of 1, OF conjI [OF j conjI [OF before conjI [OF answer found]]]]
  have kept: "response_video.viewCount (videos_json sample_json ! 50) = ''10''
      \<and> response_video.likeCount (videos_json sample_json ! 50) = ''2''
      \<and> response_video.commentCount (videos_json sample_json ! 50) = ''0''"
    by simp
  from at0 none0
  have sentinel: "response_video.viewCount (videos_json sample_json ! 0) = ''N/A''
      \<and> response_video.likeCount (videos_json sample_json ! 0) = ''N/A''
      \<and> response_video.commentCount (videos_json sample_json ! 0) = ''N/A''"
    by (rule mp)
  from sample_reply_Json total failed sentinel kept show ?thesis
    by simp
qed

end
